theory Spec2Isabelle
  imports Main "HOL-Library.Word" "HOL-Library.List_Lexorder" "HOL-Library.Multiset"
begin

unbundle bit_operations_syntax

section \<open>Received data events (PanelDue.cpp)\<close>

text \<open>
  The C++ enumeration \<open>ReceivedDataEvent\<close>: an enumerator is its integer value, in
  declaration order (\<open>rcvUnknown = 0\<close>).
\<close>

datatype ReceivedDataEvent = Enumerator nat

abbreviation rcvUnknown :: ReceivedDataEvent where "rcvUnknown \<equiv> Enumerator 0"
abbreviation rcvPushMessage :: ReceivedDataEvent where "rcvPushMessage \<equiv> Enumerator 1"
abbreviation rcvPushResponse :: ReceivedDataEvent where "rcvPushResponse \<equiv> Enumerator 2"
abbreviation rcvPushSeq :: ReceivedDataEvent where "rcvPushSeq \<equiv> Enumerator 3"
abbreviation rcvPushBeepDuration :: ReceivedDataEvent where "rcvPushBeepDuration \<equiv> Enumerator 4"
abbreviation rcvPushBeepFrequency :: ReceivedDataEvent where "rcvPushBeepFrequency \<equiv> Enumerator 5"
abbreviation rcvM20Dir :: ReceivedDataEvent where "rcvM20Dir \<equiv> Enumerator 6"
abbreviation rcvM20Err :: ReceivedDataEvent where "rcvM20Err \<equiv> Enumerator 7"
abbreviation rcvM20Files :: ReceivedDataEvent where "rcvM20Files \<equiv> Enumerator 8"
abbreviation rcvM36Filament :: ReceivedDataEvent where "rcvM36Filament \<equiv> Enumerator 9"
abbreviation rcvM36Filename :: ReceivedDataEvent where "rcvM36Filename \<equiv> Enumerator 10"
abbreviation rcvM36GeneratedBy :: ReceivedDataEvent where "rcvM36GeneratedBy \<equiv> Enumerator 11"
abbreviation rcvM36Height :: ReceivedDataEvent where "rcvM36Height \<equiv> Enumerator 12"
abbreviation rcvM36LastModified :: ReceivedDataEvent where "rcvM36LastModified \<equiv> Enumerator 13"
abbreviation rcvM36LayerHeight :: ReceivedDataEvent where "rcvM36LayerHeight \<equiv> Enumerator 14"
abbreviation rcvM36PrintTime :: ReceivedDataEvent where "rcvM36PrintTime \<equiv> Enumerator 15"
abbreviation rcvM36SimulatedTime :: ReceivedDataEvent where "rcvM36SimulatedTime \<equiv> Enumerator 16"
abbreviation rcvM36Size :: ReceivedDataEvent where "rcvM36Size \<equiv> Enumerator 17"
abbreviation rcvKey :: ReceivedDataEvent where "rcvKey \<equiv> Enumerator 18"
abbreviation rcvFlags :: ReceivedDataEvent where "rcvFlags \<equiv> Enumerator 19"
abbreviation rcvResult :: ReceivedDataEvent where "rcvResult \<equiv> Enumerator 20"
abbreviation rcvOMKeyNoKey :: ReceivedDataEvent where "rcvOMKeyNoKey \<equiv> Enumerator 21"
abbreviation rcvOMKeyBoards :: ReceivedDataEvent where "rcvOMKeyBoards \<equiv> Enumerator 22"
abbreviation rcvOMKeyDirectories :: ReceivedDataEvent where "rcvOMKeyDirectories \<equiv> Enumerator 23"
abbreviation rcvOMKeyFans :: ReceivedDataEvent where "rcvOMKeyFans \<equiv> Enumerator 24"
abbreviation rcvOMKeyHeat :: ReceivedDataEvent where "rcvOMKeyHeat \<equiv> Enumerator 25"
abbreviation rcvOMKeyInputs :: ReceivedDataEvent where "rcvOMKeyInputs \<equiv> Enumerator 26"
abbreviation rcvOMKeyJob :: ReceivedDataEvent where "rcvOMKeyJob \<equiv> Enumerator 27"
abbreviation rcvOMKeyLimits :: ReceivedDataEvent where "rcvOMKeyLimits \<equiv> Enumerator 28"
abbreviation rcvOMKeyMove :: ReceivedDataEvent where "rcvOMKeyMove \<equiv> Enumerator 29"
abbreviation rcvOMKeyNetwork :: ReceivedDataEvent where "rcvOMKeyNetwork \<equiv> Enumerator 30"
abbreviation rcvOMKeyReply :: ReceivedDataEvent where "rcvOMKeyReply \<equiv> Enumerator 31"
abbreviation rcvOMKeyScanner :: ReceivedDataEvent where "rcvOMKeyScanner \<equiv> Enumerator 32"
abbreviation rcvOMKeySensors :: ReceivedDataEvent where "rcvOMKeySensors \<equiv> Enumerator 33"
abbreviation rcvOMKeySeqs :: ReceivedDataEvent where "rcvOMKeySeqs \<equiv> Enumerator 34"
abbreviation rcvOMKeySpindles :: ReceivedDataEvent where "rcvOMKeySpindles \<equiv> Enumerator 35"
abbreviation rcvOMKeyState :: ReceivedDataEvent where "rcvOMKeyState \<equiv> Enumerator 36"
abbreviation rcvOMKeyTools :: ReceivedDataEvent where "rcvOMKeyTools \<equiv> Enumerator 37"
abbreviation rcvOMKeyVolumes :: ReceivedDataEvent where "rcvOMKeyVolumes \<equiv> Enumerator 38"
abbreviation rcvLiveFansActualValue :: ReceivedDataEvent where "rcvLiveFansActualValue \<equiv> Enumerator 39"
abbreviation rcvLiveHeatHeatersActive :: ReceivedDataEvent where "rcvLiveHeatHeatersActive \<equiv> Enumerator 40"
abbreviation rcvLiveHeatHeatersCurrent :: ReceivedDataEvent where "rcvLiveHeatHeatersCurrent \<equiv> Enumerator 41"
abbreviation rcvLiveHeatHeatersStandby :: ReceivedDataEvent where "rcvLiveHeatHeatersStandby \<equiv> Enumerator 42"
abbreviation rcvLiveHeatHeatersState :: ReceivedDataEvent where "rcvLiveHeatHeatersState \<equiv> Enumerator 43"
abbreviation rcvLiveJobFilePosition :: ReceivedDataEvent where "rcvLiveJobFilePosition \<equiv> Enumerator 44"
abbreviation rcvLiveJobTimesLeftFilament :: ReceivedDataEvent where "rcvLiveJobTimesLeftFilament \<equiv> Enumerator 45"
abbreviation rcvLiveJobTimesLeftFile :: ReceivedDataEvent where "rcvLiveJobTimesLeftFile \<equiv> Enumerator 46"
abbreviation rcvLiveJobTimesLeftLayer :: ReceivedDataEvent where "rcvLiveJobTimesLeftLayer \<equiv> Enumerator 47"
abbreviation rcvMoveAxesHomed :: ReceivedDataEvent where "rcvMoveAxesHomed \<equiv> Enumerator 48"
abbreviation rcvLiveMoveAxesMachinePosition :: ReceivedDataEvent where "rcvLiveMoveAxesMachinePosition \<equiv> Enumerator 49"
abbreviation rcvLiveMoveAxesUserPosition :: ReceivedDataEvent where "rcvLiveMoveAxesUserPosition \<equiv> Enumerator 50"
abbreviation rcvLiveSensorsProbeValue :: ReceivedDataEvent where "rcvLiveSensorsProbeValue \<equiv> Enumerator 51"
abbreviation rcvLiveSeqsBoards :: ReceivedDataEvent where "rcvLiveSeqsBoards \<equiv> Enumerator 52"
abbreviation rcvLiveSeqsDirectories :: ReceivedDataEvent where "rcvLiveSeqsDirectories \<equiv> Enumerator 53"
abbreviation rcvLiveSeqsFans :: ReceivedDataEvent where "rcvLiveSeqsFans \<equiv> Enumerator 54"
abbreviation rcvLiveSeqsHeat :: ReceivedDataEvent where "rcvLiveSeqsHeat \<equiv> Enumerator 55"
abbreviation rcvLiveSeqsInputs :: ReceivedDataEvent where "rcvLiveSeqsInputs \<equiv> Enumerator 56"
abbreviation rcvLiveSeqsJob :: ReceivedDataEvent where "rcvLiveSeqsJob \<equiv> Enumerator 57"
abbreviation rcvLiveSeqsMove :: ReceivedDataEvent where "rcvLiveSeqsMove \<equiv> Enumerator 58"
abbreviation rcvLiveSeqsNetwork :: ReceivedDataEvent where "rcvLiveSeqsNetwork \<equiv> Enumerator 59"
abbreviation rcvLiveSeqsReply :: ReceivedDataEvent where "rcvLiveSeqsReply \<equiv> Enumerator 60"
abbreviation rcvLiveSeqsScanner :: ReceivedDataEvent where "rcvLiveSeqsScanner \<equiv> Enumerator 61"
abbreviation rcvLiveSeqsSensors :: ReceivedDataEvent where "rcvLiveSeqsSensors \<equiv> Enumerator 62"
abbreviation rcvLiveSeqsSpindles :: ReceivedDataEvent where "rcvLiveSeqsSpindles \<equiv> Enumerator 63"
abbreviation rcvLiveSeqsState :: ReceivedDataEvent where "rcvLiveSeqsState \<equiv> Enumerator 64"
abbreviation rcvLiveSeqsTools :: ReceivedDataEvent where "rcvLiveSeqsTools \<equiv> Enumerator 65"
abbreviation rcvLiveSeqsVolumes :: ReceivedDataEvent where "rcvLiveSeqsVolumes \<equiv> Enumerator 66"
abbreviation rcvLiveSpindlesCurrent :: ReceivedDataEvent where "rcvLiveSpindlesCurrent \<equiv> Enumerator 67"
abbreviation rcvLiveStateCurrentTool :: ReceivedDataEvent where "rcvLiveStateCurrentTool \<equiv> Enumerator 68"
abbreviation rcvLiveStateStatus :: ReceivedDataEvent where "rcvLiveStateStatus \<equiv> Enumerator 69"
abbreviation rcvLiveStateUptime :: ReceivedDataEvent where "rcvLiveStateUptime \<equiv> Enumerator 70"
abbreviation rcvBoardsFirmwareName :: ReceivedDataEvent where "rcvBoardsFirmwareName \<equiv> Enumerator 71"
abbreviation rcvHeatBedHeaters :: ReceivedDataEvent where "rcvHeatBedHeaters \<equiv> Enumerator 72"
abbreviation rcvHeatChamberHeaters :: ReceivedDataEvent where "rcvHeatChamberHeaters \<equiv> Enumerator 73"
abbreviation rcvJobFileFilename :: ReceivedDataEvent where "rcvJobFileFilename \<equiv> Enumerator 74"
abbreviation rcvJobFileSize :: ReceivedDataEvent where "rcvJobFileSize \<equiv> Enumerator 75"
abbreviation rcvMoveAxesBabystep :: ReceivedDataEvent where "rcvMoveAxesBabystep \<equiv> Enumerator 76"
abbreviation rcvMoveAxesLetter :: ReceivedDataEvent where "rcvMoveAxesLetter \<equiv> Enumerator 77"
abbreviation rcvMoveAxesVisible :: ReceivedDataEvent where "rcvMoveAxesVisible \<equiv> Enumerator 78"
abbreviation rcvMoveAxesWorkplaceOffsets :: ReceivedDataEvent where "rcvMoveAxesWorkplaceOffsets \<equiv> Enumerator 79"
abbreviation rcvMoveExtrudersFactor :: ReceivedDataEvent where "rcvMoveExtrudersFactor \<equiv> Enumerator 80"
abbreviation rcvMoveKinematicsName :: ReceivedDataEvent where "rcvMoveKinematicsName \<equiv> Enumerator 81"
abbreviation rcvMoveSpeedFactor :: ReceivedDataEvent where "rcvMoveSpeedFactor \<equiv> Enumerator 82"
abbreviation rcvMoveWorkplaceNumber :: ReceivedDataEvent where "rcvMoveWorkplaceNumber \<equiv> Enumerator 83"
abbreviation rcvNetworkName :: ReceivedDataEvent where "rcvNetworkName \<equiv> Enumerator 84"
abbreviation rcvNetworkInterfacesActualIP :: ReceivedDataEvent where "rcvNetworkInterfacesActualIP \<equiv> Enumerator 85"
abbreviation rcvSpindlesActive :: ReceivedDataEvent where "rcvSpindlesActive \<equiv> Enumerator 86"
abbreviation rcvSpindlesMax :: ReceivedDataEvent where "rcvSpindlesMax \<equiv> Enumerator 87"
abbreviation rcvSpindlesTool :: ReceivedDataEvent where "rcvSpindlesTool \<equiv> Enumerator 88"
abbreviation rcvStateMessageBox :: ReceivedDataEvent where "rcvStateMessageBox \<equiv> Enumerator 89"
abbreviation rcvStateMessageBoxAxisControls :: ReceivedDataEvent where "rcvStateMessageBoxAxisControls \<equiv> Enumerator 90"
abbreviation rcvStateMessageBoxMessage :: ReceivedDataEvent where "rcvStateMessageBoxMessage \<equiv> Enumerator 91"
abbreviation rcvStateMessageBoxMode :: ReceivedDataEvent where "rcvStateMessageBoxMode \<equiv> Enumerator 92"
abbreviation rcvStateMessageBoxSeq :: ReceivedDataEvent where "rcvStateMessageBoxSeq \<equiv> Enumerator 93"
abbreviation rcvStateMessageBoxTimeout :: ReceivedDataEvent where "rcvStateMessageBoxTimeout \<equiv> Enumerator 94"
abbreviation rcvStateMessageBoxTitle :: ReceivedDataEvent where "rcvStateMessageBoxTitle \<equiv> Enumerator 95"
abbreviation rcvToolsExtruders :: ReceivedDataEvent where "rcvToolsExtruders \<equiv> Enumerator 96"
abbreviation rcvToolsHeaters :: ReceivedDataEvent where "rcvToolsHeaters \<equiv> Enumerator 97"
abbreviation rcvToolsOffsets :: ReceivedDataEvent where "rcvToolsOffsets \<equiv> Enumerator 98"
abbreviation rcvToolsNumber :: ReceivedDataEvent where "rcvToolsNumber \<equiv> Enumerator 99"
abbreviation rcvLiveToolsState :: ReceivedDataEvent where "rcvLiveToolsState \<equiv> Enumerator 100"
abbreviation rcvVolumesMounted :: ReceivedDataEvent where "rcvVolumesMounted \<equiv> Enumerator 101"

section \<open>Sequence numbers and the poll scheduler (PanelDue.cpp)\<close>

text \<open>
  \<open>struct Seqs\<close>: one 16-bit counter per object-model key and one single-bit
  \<open>update\<close> flag per key.
\<close>

record Seqs =
  boards :: "16 word"
  directories :: "16 word"
  fans :: "16 word"
  heat :: "16 word"
  inputs :: "16 word"
  job :: "16 word"
  move :: "16 word"
  network :: "16 word"
  scanner :: "16 word"
  sensors :: "16 word"
  spindles :: "16 word"
  state :: "16 word"
  tools :: "16 word"
  volumes :: "16 word"
  updateBoards :: bool
  updateDirectories :: bool
  updateFans :: bool
  updateHeat :: bool
  updateInputs :: bool
  updateJob :: bool
  updateMove :: bool
  updateNetwork :: bool
  updateScanner :: bool
  updateSensors :: bool
  updateSpindles :: bool
  updateState :: bool
  updateTools :: bool
  updateVolumes :: bool

text \<open>The preprocessor switches that select which detailed requests are issued.\<close>

definition FETCH_BOARDS :: bool where "FETCH_BOARDS = True"
definition FETCH_DIRECTORIES :: bool where "FETCH_DIRECTORIES = False"
definition FETCH_FANS :: bool where "FETCH_FANS = False"
definition FETCH_HEAT :: bool where "FETCH_HEAT = True"
definition FETCH_INPUTS :: bool where "FETCH_INPUTS = False"
definition FETCH_JOB :: bool where "FETCH_JOB = True"
definition FETCH_MOVE :: bool where "FETCH_MOVE = True"
definition FETCH_NETWORK :: bool where "FETCH_NETWORK = True"
definition FETCH_SCANNER :: bool where "FETCH_SCANNER = False"
definition FETCH_SENSORS :: bool where "FETCH_SENSORS = False"
definition FETCH_SPINDLES :: bool where "FETCH_SPINDLES = True"
definition FETCH_STATE :: bool where "FETCH_STATE = True"
definition FETCH_TOOLS :: bool where "FETCH_TOOLS = True"
definition FETCH_VOLUMES :: bool where "FETCH_VOLUMES = True"

text \<open>
  The field assignments of \<open>resetSeqs\<close>: every counter becomes
  \<open>(uint16_t)((1 << 16) - 1)\<close> and every update flag becomes \<open>false\<close>.
  (The trailing call of \<open>Reconnect\<close> is part of \<open>resetSeqs\<close> below, on the
  whole engine state.)
\<close>

definition resetSeqsFields :: "Seqs \<Rightarrow> Seqs" where
  "resetSeqsFields q =
     q\<lparr>boards := 65535, directories := 65535, fans := 65535, heat := 65535, inputs := 65535, job := 65535, move := 65535, network := 65535, scanner := 65535, sensors := 65535, spindles := 65535, state := 65535, tools := 65535, volumes := 65535,
       updateBoards := False, updateDirectories := False, updateFans := False, updateHeat := False, updateInputs := False, updateJob := False, updateMove := False, updateNetwork := False, updateScanner := False, updateSensors := False, updateSpindles := False, updateState := False, updateTools := False, updateVolumes := False\<rparr>"

record OMRequestParams =
  key :: string
  flags :: string

definition noKeyParams :: OMRequestParams where
  "noKeyParams = \<lparr>key = '''', flags = ''v''\<rparr>"
definition boardsParams :: OMRequestParams where
  "boardsParams = \<lparr>key = ''boards'', flags = ''v''\<rparr>"
definition directoriesParams :: OMRequestParams where
  "directoriesParams = \<lparr>key = ''directories'', flags = ''v''\<rparr>"
definition fansParams :: OMRequestParams where
  "fansParams = \<lparr>key = ''fans'', flags = ''v''\<rparr>"
definition heatParams :: OMRequestParams where
  "heatParams = \<lparr>key = ''heat'', flags = ''v''\<rparr>"
definition inputsParams :: OMRequestParams where
  "inputsParams = \<lparr>key = ''inputs'', flags = ''v''\<rparr>"
definition jobParams :: OMRequestParams where
  "jobParams = \<lparr>key = ''job'', flags = ''v''\<rparr>"
definition moveParams :: OMRequestParams where
  "moveParams = \<lparr>key = ''move'', flags = ''v''\<rparr>"
definition networkParams :: OMRequestParams where
  "networkParams = \<lparr>key = ''network'', flags = ''v''\<rparr>"
definition scannerParams :: OMRequestParams where
  "scannerParams = \<lparr>key = ''scanner'', flags = ''v''\<rparr>"
definition sensorsParams :: OMRequestParams where
  "sensorsParams = \<lparr>key = ''sensors'', flags = ''v''\<rparr>"
definition spindlesParams :: OMRequestParams where
  "spindlesParams = \<lparr>key = ''spindles'', flags = ''v''\<rparr>"
definition stateParams :: OMRequestParams where
  "stateParams = \<lparr>key = ''state'', flags = ''vn''\<rparr>"
definition toolsParams :: OMRequestParams where
  "toolsParams = \<lparr>key = ''tools'', flags = ''v''\<rparr>"
definition volumesParams :: OMRequestParams where
  "volumesParams = \<lparr>key = ''volumes'', flags = ''v''\<rparr>"

text \<open>\<open>GetNextToPoll\<close>; the null pointer is \<open>None\<close>.\<close>

definition GetNextToPoll :: "Seqs \<Rightarrow> OMRequestParams option" where
  "GetNextToPoll q =
     (
      if updateNetwork q then Some networkParams
      else if updateBoards q then Some boardsParams
      else if updateMove q then Some moveParams
      else if updateHeat q then Some heatParams
      else if updateTools q then Some toolsParams
      else if updateSpindles q then Some spindlesParams
      else if updateDirectories q then Some directoriesParams
      else if updateFans q then Some fansParams
      else if updateInputs q then Some inputsParams
      else if updateJob q then Some jobParams
      else if updateScanner q then Some scannerParams
      else if updateSensors q then Some sensorsParams
      else if updateState q then Some stateParams
      else if updateVolumes q then Some volumesParams
      else None)"

definition SeqsRequestDone :: "ReceivedDataEvent \<Rightarrow> Seqs \<Rightarrow> Seqs" where
  "SeqsRequestDone rde q =
     (
      if rde = rcvOMKeyBoards then q\<lparr>updateBoards := False\<rparr>
      else if rde = rcvOMKeyDirectories then q\<lparr>updateDirectories := False\<rparr>
      else if rde = rcvOMKeyFans then q\<lparr>updateFans := False\<rparr>
      else if rde = rcvOMKeyHeat then q\<lparr>updateHeat := False\<rparr>
      else if rde = rcvOMKeyInputs then q\<lparr>updateInputs := False\<rparr>
      else if rde = rcvOMKeyJob then q\<lparr>updateJob := False\<rparr>
      else if rde = rcvOMKeyMove then q\<lparr>updateMove := False\<rparr>
      else if rde = rcvOMKeyNetwork then q\<lparr>updateNetwork := False\<rparr>
      else if rde = rcvOMKeyScanner then q\<lparr>updateScanner := False\<rparr>
      else if rde = rcvOMKeySensors then q\<lparr>updateSensors := False\<rparr>
      else if rde = rcvOMKeySpindles then q\<lparr>updateSpindles := False\<rparr>
      else if rde = rcvOMKeyState then q\<lparr>updateState := False\<rparr>
      else if rde = rcvOMKeyTools then q\<lparr>updateTools := False\<rparr>
      else if rde = rcvOMKeyVolumes then q\<lparr>updateVolumes := False\<rparr>
      else q)"

text \<open>
  \<open>UpdateSeqs(rde, ival)\<close>, with \<open>ival\<close> an \<open>int32_t\<close>.  The comparison promotes the
  16-bit counter to \<open>int\<close>; the assignment truncates \<open>ival\<close> to 16 bits.
\<close>

definition UpdateSeqs :: "ReceivedDataEvent \<Rightarrow> 32 word \<Rightarrow> Seqs \<Rightarrow> Seqs" where
  "UpdateSeqs rde ival q =
     (
      if FETCH_BOARDS \<and> rde = rcvLiveSeqsBoards then
        (if uint (boards q) \<noteq> sint ival then q\<lparr>boards := ucast ival, updateBoards := True\<rparr> else q)
      else if FETCH_DIRECTORIES \<and> rde = rcvLiveSeqsDirectories then
        (if uint (directories q) \<noteq> sint ival then q\<lparr>directories := ucast ival, updateDirectories := True\<rparr> else q)
      else if FETCH_FANS \<and> rde = rcvLiveSeqsFans then
        (if uint (fans q) \<noteq> sint ival then q\<lparr>fans := ucast ival, updateFans := True\<rparr> else q)
      else if FETCH_HEAT \<and> rde = rcvLiveSeqsHeat then
        (if uint (heat q) \<noteq> sint ival then q\<lparr>heat := ucast ival, updateHeat := True\<rparr> else q)
      else if FETCH_INPUTS \<and> rde = rcvLiveSeqsInputs then
        (if uint (inputs q) \<noteq> sint ival then q\<lparr>inputs := ucast ival, updateInputs := True\<rparr> else q)
      else if FETCH_JOB \<and> rde = rcvLiveSeqsJob then
        (if uint (job q) \<noteq> sint ival then q\<lparr>job := ucast ival, updateJob := True\<rparr> else q)
      else if FETCH_MOVE \<and> rde = rcvLiveSeqsMove then
        (if uint (move q) \<noteq> sint ival then q\<lparr>move := ucast ival, updateMove := True\<rparr> else q)
      else if FETCH_NETWORK \<and> rde = rcvLiveSeqsNetwork then
        (if uint (network q) \<noteq> sint ival then q\<lparr>network := ucast ival, updateNetwork := True\<rparr> else q)
      else if FETCH_SCANNER \<and> rde = rcvLiveSeqsScanner then
        (if uint (scanner q) \<noteq> sint ival then q\<lparr>scanner := ucast ival, updateScanner := True\<rparr> else q)
      else if FETCH_SENSORS \<and> rde = rcvLiveSeqsSensors then
        (if uint (sensors q) \<noteq> sint ival then q\<lparr>sensors := ucast ival, updateSensors := True\<rparr> else q)
      else if FETCH_SPINDLES \<and> rde = rcvLiveSeqsSpindles then
        (if uint (spindles q) \<noteq> sint ival then q\<lparr>spindles := ucast ival, updateSpindles := True\<rparr> else q)
      else if FETCH_STATE \<and> rde = rcvLiveSeqsState then
        (if uint (state q) \<noteq> sint ival then q\<lparr>state := ucast ival, updateState := True\<rparr> else q)
      else if FETCH_TOOLS \<and> rde = rcvLiveSeqsTools then
        (if uint (tools q) \<noteq> sint ival then q\<lparr>tools := ucast ival, updateTools := True\<rparr> else q)
      else if FETCH_VOLUMES \<and> rde = rcvLiveSeqsVolumes then
        (if uint (volumes q) \<noteq> sint ival then q\<lparr>volumes := ucast ival, updateVolumes := True\<rparr> else q)
      else q)"

text \<open>
  The scheduler as the specification words it: a fixed priority order over the
  subsystems, a dirty bit per subsystem, and a detail request per subsystem; the next
  action is the detail request of the first dirty subsystem in that order.
\<close>

datatype Subsystem = Network | Boards | Move | Heat | Tools | Spindles | Directories
  | Fans | Inputs | Job | Scanner | Sensors | State | Volumes

definition spec_priority_order :: "Subsystem list" where
  "spec_priority_order =
     [Network, Boards, Move, Heat, Tools, Spindles, Directories, Fans, Inputs, Job,
      Scanner, Sensors, State, Volumes]"

fun spec_dirty :: "Seqs \<Rightarrow> Subsystem \<Rightarrow> bool" where
  "spec_dirty q Network = updateNetwork q"
| "spec_dirty q Boards = updateBoards q"
| "spec_dirty q Move = updateMove q"
| "spec_dirty q Heat = updateHeat q"
| "spec_dirty q Tools = updateTools q"
| "spec_dirty q Spindles = updateSpindles q"
| "spec_dirty q Directories = updateDirectories q"
| "spec_dirty q Fans = updateFans q"
| "spec_dirty q Inputs = updateInputs q"
| "spec_dirty q Job = updateJob q"
| "spec_dirty q Scanner = updateScanner q"
| "spec_dirty q Sensors = updateSensors q"
| "spec_dirty q State = updateState q"
| "spec_dirty q Volumes = updateVolumes q"

fun spec_detail_request :: "Subsystem \<Rightarrow> OMRequestParams" where
  "spec_detail_request Network = \<lparr>key = ''network'', flags = ''v''\<rparr>"
| "spec_detail_request Boards = \<lparr>key = ''boards'', flags = ''v''\<rparr>"
| "spec_detail_request Move = \<lparr>key = ''move'', flags = ''v''\<rparr>"
| "spec_detail_request Heat = \<lparr>key = ''heat'', flags = ''v''\<rparr>"
| "spec_detail_request Tools = \<lparr>key = ''tools'', flags = ''v''\<rparr>"
| "spec_detail_request Spindles = \<lparr>key = ''spindles'', flags = ''v''\<rparr>"
| "spec_detail_request Directories = \<lparr>key = ''directories'', flags = ''v''\<rparr>"
| "spec_detail_request Fans = \<lparr>key = ''fans'', flags = ''v''\<rparr>"
| "spec_detail_request Inputs = \<lparr>key = ''inputs'', flags = ''v''\<rparr>"
| "spec_detail_request Job = \<lparr>key = ''job'', flags = ''v''\<rparr>"
| "spec_detail_request Scanner = \<lparr>key = ''scanner'', flags = ''v''\<rparr>"
| "spec_detail_request Sensors = \<lparr>key = ''sensors'', flags = ''v''\<rparr>"
| "spec_detail_request State = \<lparr>key = ''state'', flags = ''vn''\<rparr>"
| "spec_detail_request Volumes = \<lparr>key = ''volumes'', flags = ''v''\<rparr>"

definition spec_NextAction :: "Seqs \<Rightarrow> OMRequestParams option" where
  "spec_NextAction q =
     map_option spec_detail_request (find (spec_dirty q) spec_priority_order)"

text \<open>A scheduler state in which exactly heat, move and tools are dirty.\<close>

definition only_heat_move_tools :: "Seqs \<Rightarrow> Seqs" where
  "only_heat_move_tools q =
     q\<lparr>updateBoards := False, updateDirectories := False, updateFans := False,
       updateHeat := True, updateInputs := False, updateJob := False, updateMove := True,
       updateNetwork := False, updateScanner := False, updateSensors := False,
       updateSpindles := False, updateState := False, updateTools := True,
       updateVolumes := False\<rparr>"

section \<open>Strings and the field tables (PanelDue.cpp)\<close>

text \<open>
  The C library's \<open>tolower\<close>, \<open>strcasecmp\<close> and \<open>strcmp\<close> in the C locale, on the
  character codes.  A C string ends at its first NUL character; a list without NUL is
  its own C string.
\<close>

definition tolower :: "char \<Rightarrow> nat" where
  "tolower c =
     (if 65 \<le> (of_char c :: nat) \<and> (of_char c :: nat) \<le> 90 then of_char c + 32 else of_char c)"

fun strcasecmp :: "string \<Rightarrow> string \<Rightarrow> int" where
  "strcasecmp [] [] = 0"
| "strcasecmp [] (b # bs) = - int (tolower b)"
| "strcasecmp (a # as) [] = int (tolower a)"
| "strcasecmp (a # as) (b # bs) =
     (if tolower a \<noteq> tolower b then int (tolower a) - int (tolower b)
      else if tolower a = 0 then 0
      else strcasecmp as bs)"

fun strcmp :: "string \<Rightarrow> string \<Rightarrow> int" where
  "strcmp [] [] = 0"
| "strcmp [] (b # bs) = - int (of_char b :: nat)"
| "strcmp (a # as) [] = int (of_char a :: nat)"
| "strcmp (a # as) (b # bs) =
     (if a \<noteq> b then int (of_char a :: nat) - int (of_char b :: nat)
      else if (of_char a :: nat) = 0 then 0
      else strcmp as bs)"

record FieldTableEntry =
  rde :: ReceivedDataEvent
  varName :: string

text \<open>\<open>fieldTable\<close> in the order of its declaration.\<close>

definition fieldTable :: "FieldTableEntry list" where
  "fieldTable =
   [\<lparr>rde = rcvKey, varName = ''key''\<rparr>,
    \<lparr>rde = rcvLiveFansActualValue, varName = ''fans^:actualValue''\<rparr>,
    \<lparr>rde = rcvLiveHeatHeatersActive, varName = ''heat:heaters^:active''\<rparr>,
    \<lparr>rde = rcvLiveHeatHeatersCurrent, varName = ''heat:heaters^:current''\<rparr>,
    \<lparr>rde = rcvLiveHeatHeatersStandby, varName = ''heat:heaters^:standby''\<rparr>,
    \<lparr>rde = rcvLiveHeatHeatersState, varName = ''heat:heaters^:state''\<rparr>,
    \<lparr>rde = rcvLiveJobFilePosition, varName = ''job:filePosition''\<rparr>,
    \<lparr>rde = rcvLiveJobTimesLeftFilament, varName = ''job:timesLeft:filament''\<rparr>,
    \<lparr>rde = rcvLiveJobTimesLeftFile, varName = ''job:timesLeft:file''\<rparr>,
    \<lparr>rde = rcvLiveJobTimesLeftLayer, varName = ''job:timesLeft:layer''\<rparr>,
    \<lparr>rde = rcvLiveMoveAxesMachinePosition, varName = ''move:axes^:machinePosition''\<rparr>,
    \<lparr>rde = rcvLiveMoveAxesUserPosition, varName = ''move:axes^:userPosition''\<rparr>,
    \<lparr>rde = rcvLiveSensorsProbeValue, varName = ''sensors:probes^:value^''\<rparr>,
    \<lparr>rde = rcvLiveSeqsBoards, varName = ''seqs:boards''\<rparr>,
    \<lparr>rde = rcvLiveSeqsDirectories, varName = ''seqs:directories''\<rparr>,
    \<lparr>rde = rcvLiveSeqsFans, varName = ''seqs:fans''\<rparr>,
    \<lparr>rde = rcvLiveSeqsHeat, varName = ''seqs:heat''\<rparr>,
    \<lparr>rde = rcvLiveSeqsInputs, varName = ''seqs:inputs''\<rparr>,
    \<lparr>rde = rcvLiveSeqsJob, varName = ''seqs:job''\<rparr>,
    \<lparr>rde = rcvLiveSeqsMove, varName = ''seqs:move''\<rparr>,
    \<lparr>rde = rcvLiveSeqsNetwork, varName = ''seqs:network''\<rparr>,
    \<lparr>rde = rcvLiveSeqsReply, varName = ''seqs:reply''\<rparr>,
    \<lparr>rde = rcvLiveSeqsScanner, varName = ''seqs:scanner''\<rparr>,
    \<lparr>rde = rcvLiveSeqsSensors, varName = ''seqs:sensors''\<rparr>,
    \<lparr>rde = rcvLiveSeqsSpindles, varName = ''seqs:spindles''\<rparr>,
    \<lparr>rde = rcvLiveSeqsState, varName = ''seqs:state''\<rparr>,
    \<lparr>rde = rcvLiveSeqsTools, varName = ''seqs:tools''\<rparr>,
    \<lparr>rde = rcvLiveSeqsVolumes, varName = ''seqs:volumes''\<rparr>,
    \<lparr>rde = rcvLiveSpindlesCurrent, varName = ''spindles^:current''\<rparr>,
    \<lparr>rde = rcvLiveStateCurrentTool, varName = ''state:currentTool''\<rparr>,
    \<lparr>rde = rcvLiveStateStatus, varName = ''state:status''\<rparr>,
    \<lparr>rde = rcvLiveStateUptime, varName = ''state:upTime''\<rparr>,
    \<lparr>rde = rcvLiveToolsState, varName = ''tools^:state''\<rparr>,
    \<lparr>rde = rcvBoardsFirmwareName, varName = ''boards^:firmwareName''\<rparr>,
    \<lparr>rde = rcvHeatBedHeaters, varName = ''heat:bedHeaters^''\<rparr>,
    \<lparr>rde = rcvHeatChamberHeaters, varName = ''heat:chamberHeaters^''\<rparr>,
    \<lparr>rde = rcvJobFileFilename, varName = ''job:file:fileName''\<rparr>,
    \<lparr>rde = rcvJobFileSize, varName = ''job:file:size''\<rparr>,
    \<lparr>rde = rcvMoveAxesBabystep, varName = ''move:axes^:babystep''\<rparr>,
    \<lparr>rde = rcvMoveAxesHomed, varName = ''move:axes^:homed''\<rparr>,
    \<lparr>rde = rcvMoveAxesLetter, varName = ''move:axes^:letter''\<rparr>,
    \<lparr>rde = rcvMoveAxesVisible, varName = ''move:axes^:visible''\<rparr>,
    \<lparr>rde = rcvMoveAxesWorkplaceOffsets, varName = ''move:axes^:workplaceOffsets^''\<rparr>,
    \<lparr>rde = rcvMoveExtrudersFactor, varName = ''move:extruders^:factor''\<rparr>,
    \<lparr>rde = rcvMoveKinematicsName, varName = ''move:kinematics:name''\<rparr>,
    \<lparr>rde = rcvMoveSpeedFactor, varName = ''move:speedFactor''\<rparr>,
    \<lparr>rde = rcvMoveWorkplaceNumber, varName = ''move:workplaceNumber''\<rparr>,
    \<lparr>rde = rcvNetworkName, varName = ''network:name''\<rparr>,
    \<lparr>rde = rcvNetworkInterfacesActualIP, varName = ''network:interfaces^:actualIP''\<rparr>,
    \<lparr>rde = rcvSpindlesActive, varName = ''spindles^:active''\<rparr>,
    \<lparr>rde = rcvSpindlesMax, varName = ''spindles^:max''\<rparr>,
    \<lparr>rde = rcvSpindlesTool, varName = ''spindles^:tool''\<rparr>,
    \<lparr>rde = rcvStateMessageBox, varName = ''state:messageBox''\<rparr>,
    \<lparr>rde = rcvStateMessageBoxAxisControls, varName = ''state:messageBox:axisControls''\<rparr>,
    \<lparr>rde = rcvStateMessageBoxMessage, varName = ''state:messageBox:message''\<rparr>,
    \<lparr>rde = rcvStateMessageBoxMode, varName = ''state:messageBox:mode''\<rparr>,
    \<lparr>rde = rcvStateMessageBoxSeq, varName = ''state:messageBox:seq''\<rparr>,
    \<lparr>rde = rcvStateMessageBoxTimeout, varName = ''state:messageBox:timeout''\<rparr>,
    \<lparr>rde = rcvStateMessageBoxTitle, varName = ''state:messageBox:title''\<rparr>,
    \<lparr>rde = rcvToolsExtruders, varName = ''tools^:extruders^''\<rparr>,
    \<lparr>rde = rcvToolsHeaters, varName = ''tools^:heaters^''\<rparr>,
    \<lparr>rde = rcvToolsNumber, varName = ''tools^:number''\<rparr>,
    \<lparr>rde = rcvToolsOffsets, varName = ''tools^:offsets^''\<rparr>,
    \<lparr>rde = rcvVolumesMounted, varName = ''volumes^:mounted''\<rparr>,
    \<lparr>rde = rcvM20Dir, varName = ''dir''\<rparr>,
    \<lparr>rde = rcvM20Err, varName = ''err''\<rparr>,
    \<lparr>rde = rcvM20Files, varName = ''files^''\<rparr>,
    \<lparr>rde = rcvM36Filament, varName = ''filament^''\<rparr>,
    \<lparr>rde = rcvM36Filename, varName = ''fileName''\<rparr>,
    \<lparr>rde = rcvM36GeneratedBy, varName = ''generatedBy''\<rparr>,
    \<lparr>rde = rcvM36Height, varName = ''height''\<rparr>,
    \<lparr>rde = rcvM36LastModified, varName = ''lastModified''\<rparr>,
    \<lparr>rde = rcvM36LayerHeight, varName = ''layerHeight''\<rparr>,
    \<lparr>rde = rcvM36PrintTime, varName = ''printTime''\<rparr>,
    \<lparr>rde = rcvM36SimulatedTime, varName = ''simulatedTime''\<rparr>,
    \<lparr>rde = rcvM36Size, varName = ''size''\<rparr>,
    \<lparr>rde = rcvPushMessage, varName = ''message''\<rparr>,
    \<lparr>rde = rcvPushResponse, varName = ''resp''\<rparr>,
    \<lparr>rde = rcvPushSeq, varName = ''seq''\<rparr>,
    \<lparr>rde = rcvPushBeepDuration, varName = ''beep_length''\<rparr>,
    \<lparr>rde = rcvPushBeepFrequency, varName = ''beep_freq''\<rparr>]"

text \<open>
  \<open>keyResponseTypeTable\<close>, declared in case-insensitive alphabetical order of the search
  string.
\<close>

definition keyResponseTypeTable :: "FieldTableEntry list" where
  "keyResponseTypeTable =
   [\<lparr>rde = rcvOMKeyNoKey, varName = ''''\<rparr>,
    \<lparr>rde = rcvOMKeyBoards, varName = ''boards''\<rparr>,
    \<lparr>rde = rcvOMKeyDirectories, varName = ''directories''\<rparr>,
    \<lparr>rde = rcvOMKeyFans, varName = ''fans''\<rparr>,
    \<lparr>rde = rcvOMKeyHeat, varName = ''heat''\<rparr>,
    \<lparr>rde = rcvOMKeyInputs, varName = ''inputs''\<rparr>,
    \<lparr>rde = rcvOMKeyJob, varName = ''job''\<rparr>,
    \<lparr>rde = rcvOMKeyLimits, varName = ''limits''\<rparr>,
    \<lparr>rde = rcvOMKeyMove, varName = ''move''\<rparr>,
    \<lparr>rde = rcvOMKeyNetwork, varName = ''network''\<rparr>,
    \<lparr>rde = rcvOMKeyReply, varName = ''reply''\<rparr>,
    \<lparr>rde = rcvOMKeyScanner, varName = ''scanner''\<rparr>,
    \<lparr>rde = rcvOMKeySensors, varName = ''sensors''\<rparr>,
    \<lparr>rde = rcvOMKeySeqs, varName = ''seqs''\<rparr>,
    \<lparr>rde = rcvOMKeySpindles, varName = ''spindles''\<rparr>,
    \<lparr>rde = rcvOMKeyState, varName = ''state''\<rparr>,
    \<lparr>rde = rcvOMKeyTools, varName = ''tools''\<rparr>,
    \<lparr>rde = rcvOMKeyVolumes, varName = ''volumes''\<rparr>]"

text \<open>
  \<open>ReceivedDataEvent bsearch(const FieldTableEntry table[], size_t numElems, const char* key)\<close>.
  \<open>bsearch_loop\<close> is the \<open>while\<close> loop together with the final \<open>return\<close>; \<open>low\<close>,
  \<open>high\<close> and \<open>mid\<close> never exceed \<open>numElems\<close>, so the \<open>size_t\<close> arithmetic does not
  wrap.  The search key is called \<open>k\<close> here.
\<close>

function bsearch_loop :: "FieldTableEntry list \<Rightarrow> nat \<Rightarrow> string \<Rightarrow> nat \<Rightarrow> nat \<Rightarrow> ReceivedDataEvent" where
  "bsearch_loop table numElems k low high =
     (if high > low then
        (let mid = (high - low) div 2 + low;
             t = strcasecmp k (varName (table ! mid))
         in if t = 0 then rde (table ! mid)
            else if t > 0 then bsearch_loop table numElems k (mid + 1) high
            else bsearch_loop table numElems k low mid)
      else if low < numElems \<and> strcasecmp k (varName (table ! low)) = 0 then rde (table ! low)
      else rcvUnknown)"
  by pat_completeness auto
termination
  by (relation "measure (\<lambda>(table, numElems, k, low, high). high - low)") auto

declare bsearch_loop.simps [simp del]

definition bsearch :: "FieldTableEntry list \<Rightarrow> nat \<Rightarrow> string \<Rightarrow> ReceivedDataEvent" where
  "bsearch table numElems k = bsearch_loop table numElems k 0 numElems"

text \<open>
  The startup call \<open>qsort(fieldTable, ARRAY_SIZE(fieldTable), sizeof(FieldTableEntry), cmp)\<close>
  with \<open>cmp(a, b) = strcasecmp(a->varName, b->varName)\<close>.  \<open>qsort\<close> is the C library's;
  it is modelled here by insertion with the same comparison function.
\<close>

definition cmp :: "FieldTableEntry \<Rightarrow> FieldTableEntry \<Rightarrow> int" where
  "cmp a b = strcasecmp (varName a) (varName b)"

fun qsort_insert :: "FieldTableEntry \<Rightarrow> FieldTableEntry list \<Rightarrow> FieldTableEntry list" where
  "qsort_insert e [] = [e]"
| "qsort_insert e (x # xs) = (if cmp e x \<le> 0 then e # x # xs else x # qsort_insert e xs)"

definition qsort :: "FieldTableEntry list \<Rightarrow> FieldTableEntry list" where
  "qsort table = foldr qsort_insert table []"

text \<open>
  \<open>Dispatch\<close>: the lookup of a field path in the table as sorted at startup from the
  declaration order \<open>table\<close>.
\<close>

definition Dispatch :: "FieldTableEntry list \<Rightarrow> string \<Rightarrow> ReceivedDataEvent" where
  "Dispatch table k = bsearch (qsort table) (length (qsort table)) k"

text \<open>
  The key by which \<open>strcasecmp\<close> orders strings: the lower-case codes of the
  characters before the first NUL, compared lexicographically.
\<close>

definition ckey :: "string \<Rightarrow> nat list" where
  "ckey s = map tolower (takeWhile (\<lambda>c. tolower c \<noteq> 0) s)"

definition tkey :: "FieldTableEntry \<Rightarrow> nat list" where
  "tkey e = ckey (varName e)"

section \<open>The object model store (UserInterface.cpp, ObjectModel.hpp)\<close>

text \<open>
  Tools and spindles live in singly linked lists that start at the globals \<open>tools\<close>
  and \<open>spindles\<close>.  A list is modelled by the sequence of its nodes in link order;
  every node carries the address at which it was allocated, so that a pointer to a node
  (the handle returned by \<open>GetOrCreate\<close>, the \<open>spindle\<close> member of a tool) is a value
  that can be compared.  \<open>index\<close> is the \<open>uint8_t\<close> member of the node, while the
  functions take the index as \<open>size_t\<close> (32 bits on the target).  Members that only
  serve the display (slots, offsets, speeds, status) are not part of the model.
\<close>

datatype error = NullPointerDereference

type_synonym pointer = nat

record node =
  addr :: pointer
  index :: "8 word"

record Spindle = node +
  tool :: "8 word"

record Tool = node +
  heater :: "8 word"
  extruder :: "8 word"
  spindle :: "pointer option"

record Axis = node +
  letter :: char
  visible :: bool
  homed :: bool

text \<open>
  The member initialisers of the structs, as \<open>new T\<close> applies them (\<open>-1\<close> is \<open>255\<close> as a
  byte); the address is filled in by the allocation.
\<close>

definition new_Spindle :: Spindle where
  "new_Spindle = \<lparr>addr = 0, index = 0, tool = - 1\<rparr>"

definition new_Tool :: Tool where
  "new_Tool = \<lparr>addr = 0, index = 0, heater = - 1, extruder = - 1, spindle = None\<rparr>"

definition new_Axis :: Axis where
  "new_Axis = \<lparr>addr = 0, index = 0, letter = CHR 0x00, visible = False, homed = False\<rparr>"

text \<open>
  \<open>template<class T> T* GetOrCreate(T*& start, size_t index, bool create)\<close>.
  \<open>find_node\<close> is the first loop; the comparison promotes the byte to \<open>size_t\<close>.
\<close>

fun find_node :: "32 word \<Rightarrow> ('a node_scheme) list \<Rightarrow> ('a node_scheme) option" where
  "find_node i [] = None"
| "find_node i (n # ns) = (if ucast (index n) = i then Some n else find_node i ns)"

text \<open>
  The \<open>while\<close> loop that walks \<open>current\<close> forward and links \<open>ret\<close> behind it:
  \<open>insert_behind ret i current rest\<close> is the list from \<open>current\<close> on, where \<open>rest\<close>
  is the list from \<open>current->next\<close> on.
\<close>

fun insert_behind ::
  "'a node_scheme \<Rightarrow> 32 word \<Rightarrow> 'a node_scheme \<Rightarrow> ('a node_scheme) list \<Rightarrow> ('a node_scheme) list"
where
  "insert_behind ret i current [] = [current, ret]"
| "insert_behind ret i current (n # ns) =
     (if ucast (index n) < i then current # insert_behind ret i n ns
      else current # ret # n # ns)"

text \<open>
  \<open>GetOrCreate fresh h start index create\<close>: \<open>fresh\<close> is the object that \<open>new T\<close>
  builds, and \<open>h\<close> is the address the next allocation returns.  The
  result is the returned pointer, the next free address and the new list.  The assignment
  \<open>ret->index = index\<close> truncates the index to a byte.
\<close>

definition GetOrCreate ::
  "'a node_scheme \<Rightarrow> pointer \<Rightarrow> ('a node_scheme) list \<Rightarrow> 32 word \<Rightarrow> bool
     \<Rightarrow> pointer option \<times> pointer \<times> ('a node_scheme) list"
where
  "GetOrCreate fresh h start i create =
     (case find_node i start of
        Some n \<Rightarrow> (Some (addr n), h, start)
      | None \<Rightarrow>
          if create then
            (let ret = fresh\<lparr>addr := h, index := ucast i\<rparr> in
             (Some h, Suc h,
              (case start of
                 [] \<Rightarrow> [ret]
               | s # rest \<Rightarrow>
                   if i < ucast (index s) then ret # start
                   else insert_behind ret i s rest)))
          else (None, h, start))"

text \<open>
  \<open>template<class T> void Remove(T*& start, size_t index, bool allFollowing)\<close>.

  The loop of the first branch, \<open>for (toDelete = start; toDelete != nullptr;
  toDelete = start->next) { start = toDelete->next; delete toDelete; }\<close>:
  \<open>Remove_head_loop start toDelete\<close> takes the lists that begin at \<open>start\<close> and at
  \<open>toDelete\<close>.  After the body, \<open>start\<close> is the successor of the deleted node, and
  the increment reads \<open>start->next\<close>, which dereferences a null pointer when the deleted
  node was the last one.
\<close>

fun Remove_head_loop :: "'a list \<Rightarrow> 'a list \<Rightarrow> error + 'a list" where
  "Remove_head_loop start [] = Inr start"
| "Remove_head_loop start (toDelete # []) = Inl NullPointerDereference"
| "Remove_head_loop start (toDelete # s # ss) = Remove_head_loop (s # ss) ss"

text \<open>
  The loop of the second branch, \<open>for (s = start; s != nullptr; s = s->next)\<close>, on the
  list that begins at \<open>s\<close>.  With \<open>allFollowing\<close> the inner loop deletes every node
  behind \<open>s\<close>; otherwise the successor is unlinked and the scan continues at the node
  behind it.
\<close>

fun Remove_scan :: "32 word \<Rightarrow> bool \<Rightarrow> ('a node_scheme) list \<Rightarrow> ('a node_scheme) list" where
  "Remove_scan i allFollowing [] = []"
| "Remove_scan i allFollowing [s] = [s]"
| "Remove_scan i allFollowing (s # n # ns) =
     (if ucast (index n) \<noteq> i then s # Remove_scan i allFollowing (n # ns)
      else if allFollowing then [s]
      else s # Remove_scan i allFollowing ns)"

definition Remove :: "('a node_scheme) list \<Rightarrow> 32 word \<Rightarrow> bool \<Rightarrow> error + ('a node_scheme) list" where
  "Remove start i allFollowing =
     (case start of
        [] \<Rightarrow> Inr (Remove_scan i allFollowing start)
      | s # rest \<Rightarrow>
          if ucast (index s) = i then
            (if allFollowing then Remove_head_loop start start else Inr rest)
          else Inr (Remove_scan i allFollowing start))"

text \<open>The store: the list heads and the next free heap address.\<close>

record ObjectModel =
  tools :: "Tool list"
  spindles :: "Spindle list"
  axes :: "Axis list"
  heap :: pointer

definition GetOrCreateSpindle :: "ObjectModel \<Rightarrow> 32 word \<Rightarrow> bool \<Rightarrow> pointer option \<times> ObjectModel" where
  "GetOrCreateSpindle om i create =
     (case GetOrCreate new_Spindle (heap om) (spindles om) i create of
        (ret, h, start) \<Rightarrow> (ret, om\<lparr>spindles := start, heap := h\<rparr>))"

definition GetOrCreateTool :: "ObjectModel \<Rightarrow> 32 word \<Rightarrow> bool \<Rightarrow> pointer option \<times> ObjectModel" where
  "GetOrCreateTool om i create =
     (case GetOrCreate new_Tool (heap om) (tools om) i create of
        (ret, h, start) \<Rightarrow> (ret, om\<lparr>tools := start, heap := h\<rparr>))"

definition RemoveSpindle :: "ObjectModel \<Rightarrow> 32 word \<Rightarrow> bool \<Rightarrow> error + ObjectModel" where
  "RemoveSpindle om i allFollowing =
     (case Remove (spindles om) i allFollowing of
        Inl e \<Rightarrow> Inl e
      | Inr start \<Rightarrow> Inr (om\<lparr>spindles := start\<rparr>))"

definition RemoveTool :: "ObjectModel \<Rightarrow> 32 word \<Rightarrow> bool \<Rightarrow> error + ObjectModel" where
  "RemoveTool om i allFollowing =
     (case Remove (tools om) i allFollowing of
        Inl e \<Rightarrow> Inl e
      | Inr start \<Rightarrow> Inr (om\<lparr>tools := start\<rparr>))"

text \<open>Writing through a pointer: the node at that address is replaced.\<close>

definition store_at :: "pointer \<Rightarrow> ('a node_scheme \<Rightarrow> 'a node_scheme) \<Rightarrow> ('a node_scheme) list \<Rightarrow> ('a node_scheme) list" where
  "store_at p f ns = map (\<lambda>n. if addr n = p then f n else n) ns"

text \<open>
  \<open>SetToolExtruder\<close>, \<open>SetToolHeater\<close>: \<open>GetOrCreateTool(toolIndex, true)->member = value\<close>.
\<close>

definition SetToolExtruder :: "ObjectModel \<Rightarrow> 32 word \<Rightarrow> 8 word \<Rightarrow> error + ObjectModel" where
  "SetToolExtruder om toolIndex e =
     (case GetOrCreateTool om toolIndex True of
        (None, om') \<Rightarrow> Inl NullPointerDereference
      | (Some p, om') \<Rightarrow> Inr (om'\<lparr>tools := store_at p (\<lambda>t. t\<lparr>extruder := e\<rparr>) (tools om')\<rparr>))"

definition SetToolHeater :: "ObjectModel \<Rightarrow> 32 word \<Rightarrow> 8 word \<Rightarrow> error + ObjectModel" where
  "SetToolHeater om toolIndex h =
     (case GetOrCreateTool om toolIndex True of
        (None, om') \<Rightarrow> Inl NullPointerDereference
      | (Some p, om') \<Rightarrow> Inr (om'\<lparr>tools := store_at p (\<lambda>t. t\<lparr>heater := h\<rparr>) (tools om')\<rparr>))"

text \<open>
  \<open>SetSpindleTool(int8_t spindle, int8_t toolIndex)\<close>.  Both bytes are signed; passing
  them to \<open>GetOrCreate\<close> converts them to \<open>size_t\<close> with sign extension.  The loop over
  the tools clears every \<open>spindle\<close> member that equals \<open>sp\<close>.
\<close>

definition clear_spindle :: "pointer \<Rightarrow> Tool list \<Rightarrow> Tool list" where
  "clear_spindle sp ts = map (\<lambda>t. if spindle t = Some sp then t\<lparr>spindle := None\<rparr> else t) ts"

definition SetSpindleTool :: "ObjectModel \<Rightarrow> 8 word \<Rightarrow> 8 word \<Rightarrow> error + ObjectModel" where
  "SetSpindleTool om spindleIndex toolIndex =
     (case GetOrCreateSpindle om (scast spindleIndex) True of
        (None, om1) \<Rightarrow> Inl NullPointerDereference
      | (Some sp, om1) \<Rightarrow>
          (let om2 = om1\<lparr>spindles := store_at sp (\<lambda>s. s\<lparr>tool := toolIndex\<rparr>) (spindles om1)\<rparr> in
           if toolIndex = - 1 then Inr (om2\<lparr>tools := clear_spindle sp (tools om2)\<rparr>)
           else
             (case GetOrCreateTool om2 (scast toolIndex) True of
                (None, om3) \<Rightarrow> Inl NullPointerDereference
              | (Some t, om3) \<Rightarrow>
                  Inr (om3\<lparr>tools := store_at t (\<lambda>x. x\<lparr>spindle := Some sp\<rparr>) (tools om3)\<rparr>))))"

text \<open>
  \<open>ProcessArrayEnd(const char id[], const size_t indices[])\<close> (PanelDue.cpp), as far as
  it acts on the store.  It reads the globals \<open>currentResponseType\<close>, \<open>lastSpindle\<close> and
  \<open>lastTool\<close> (both \<open>int8_t\<close>; \<open>lastTool + 1\<close> is computed in \<open>int\<close> and converted to
  \<open>size_t\<close>).  The calls into the file manager and the display do not touch the store.
  The path is called \<open>id'\<close> here.

  \<open>OM::RemoveAxis(size_t index, bool allFollowing)\<close> is declared in ObjectModel.hpp and
  called at the end of \<open>move:axes^\<close>, but its body is not part of the sources: it is the
  parameter \<open>RemoveAxis\<close>, an arbitrary operation on the store that may fail.
\<close>

definition ProcessArrayEnd ::
  "(32 word \<Rightarrow> bool \<Rightarrow> ObjectModel \<Rightarrow> error + ObjectModel)
     \<Rightarrow> ReceivedDataEvent \<Rightarrow> 8 word \<Rightarrow> 8 word \<Rightarrow> string \<Rightarrow> (nat \<Rightarrow> 32 word) \<Rightarrow> ObjectModel
     \<Rightarrow> error + ObjectModel"
where
  "ProcessArrayEnd RemoveAxis currentResponseType lastSpindle lastTool id' indices om =
     (if indices 0 = 0 \<and> strcmp id' ''files^'' = 0 then Inr om
      else if currentResponseType = rcvOMKeyMove \<and> strcasecmp id' ''move:axes^'' = 0 then
        RemoveAxis (indices 0) True om
      else if currentResponseType = rcvOMKeySpindles then
        (if strcasecmp id' ''spindles^'' = 0 then RemoveSpindle om (scast lastSpindle + 1) True
         else Inr om)
      else if currentResponseType = rcvOMKeyTools then
        (if strcasecmp id' ''tools^'' = 0 then RemoveTool om (scast lastTool + 1) True
         else if strcasecmp id' ''tools^:extruders^'' = 0 \<and> indices 1 = 0 then
           SetToolExtruder om (indices 0) (- 1)
         else if strcasecmp id' ''tools^:heaters^'' = 0 \<and> indices 1 = 0 then
           SetToolHeater om (indices 0) (- 1)
         else Inr om)
      else Inr om)"

text \<open>Auxiliary definitions for stating the properties of the store.\<close>

definition empty_store :: ObjectModel where
  "empty_store = \<lparr>tools = [], spindles = [], axes = [], heap = 0\<rparr>"

text \<open>A tool list and a store holding freshly created tools with the given indices.\<close>

definition tools_with :: "nat list \<Rightarrow> Tool list" where
  "tools_with is = map (\<lambda>i. new_Tool\<lparr>addr := i, index := of_nat i\<rparr>) is"

definition store_with :: "nat list \<Rightarrow> ObjectModel" where
  "store_with is = \<lparr>tools = tools_with is, spindles = [], axes = [], heap = length is\<rparr>"

text \<open>Two calls of \<open>GetOrCreate\<close> with \<open>create = true\<close> in a row, with both results.\<close>

definition GetOrCreate_twice ::
  "'a node_scheme \<Rightarrow> pointer \<Rightarrow> ('a node_scheme) list \<Rightarrow> 32 word
     \<Rightarrow> (pointer option \<times> pointer \<times> ('a node_scheme) list)
       \<times> (pointer option \<times> pointer \<times> ('a node_scheme) list)"
where
  "GetOrCreate_twice fresh h start i =
     (case GetOrCreate fresh h start i True of
        (ret, h', start') \<Rightarrow> ((ret, h', start'), GetOrCreate fresh h' start' i True))"

text \<open>A sequence of creating calls.\<close>

fun GetOrCreate_all ::
  "'a node_scheme \<Rightarrow> pointer \<Rightarrow> ('a node_scheme) list \<Rightarrow> 32 word list
     \<Rightarrow> pointer \<times> ('a node_scheme) list"
where
  "GetOrCreate_all fresh h start [] = (h, start)"
| "GetOrCreate_all fresh h start (i # is) =
     (case GetOrCreate fresh h start i True of
        (ret, h', start') \<Rightarrow> GetOrCreate_all fresh h' start' is)"

text \<open>A sequence of \<open>SetSpindleTool\<close> calls.\<close>

fun SetSpindleTool_all :: "ObjectModel \<Rightarrow> (8 word \<times> 8 word) list \<Rightarrow> error + ObjectModel" where
  "SetSpindleTool_all om [] = Inr om"
| "SetSpindleTool_all om ((s, t) # ops) =
     (case SetSpindleTool om s t of Inl e \<Rightarrow> Inl e | Inr om' \<Rightarrow> SetSpindleTool_all om' ops)"

text \<open>
  Mutual consistency of the cross references of one spindle: a tool points at the
  spindle exactly when it is the tool the spindle refers to.
\<close>

definition refers_to :: "Spindle \<Rightarrow> Tool \<Rightarrow> bool" where
  "refers_to sp t = (0 \<le> sint (tool sp) \<and> uint (index t) = sint (tool sp))"

definition xref_consistent :: "ObjectModel \<Rightarrow> 8 word \<Rightarrow> bool" where
  "xref_consistent om spindleIndex =
     (case find_node (scast spindleIndex) (spindles om) of
        None \<Rightarrow> False
      | Some sp \<Rightarrow> list_all (\<lambda>t. (spindle t = Some (addr sp)) = refers_to sp t) (tools om))"

text \<open>An index array whose first two elements are given.\<close>

definition indices_of :: "32 word \<Rightarrow> 32 word \<Rightarrow> nat \<Rightarrow> 32 word" where
  "indices_of i0 i1 n = (if n = 0 then i0 else i1)"

section \<open>The message session (PanelDue.cpp)\<close>

text \<open>
  Modelled from the spec: \<open>struct Alert\<close> is declared in a header that is not part of
  the sources.  Its members are the ones the sources use (\<open>mode\<close>, \<open>seq\<close>, \<open>controls\<close>,
  \<open>timeout\<close>, \<open>flags\<close>, \<open>title\<close>, \<open>text\<close>); the flag constants are one bit per
  composite field, and \<open>GotAll\<close> is "all six seen".  \<open>'f\<close> stands for \<open>float\<close>.
\<close>

record 'f Alert =
  mode :: "32 word"
  seq :: "32 word"
  controls :: "32 word"
  timeout :: 'f
  flags :: "8 word"
  title :: string
  text' :: string

definition GotMode :: "8 word" where "GotMode = 1"
definition GotSeq :: "8 word" where "GotSeq = 2"
definition GotTimeout :: "8 word" where "GotTimeout = 4"
definition GotTitle :: "8 word" where "GotTitle = 8"
definition GotText :: "8 word" where "GotText = 16"
definition GotControls :: "8 word" where "GotControls = 32"
definition GotAll :: "8 word" where
  "GotAll = GotMode OR GotSeq OR GotTimeout OR GotTitle OR GotText OR GotControls"

text \<open>
  The string conversions of the firmware's library are not part of the sources; they
  are parameters of the model.  \<open>StrToU32\<close>, \<open>StrToI32\<close> and \<open>SafeStrtof\<close> return the
  value read and whether the end pointer stands at the end of the string;
  \<open>round_float d\<close> is \<open>(int)((d < 0.0) ? d - 0.5 : d + 0.5)\<close>; the two capacities are
  those of the \<open>String<N>\<close> members \<open>title\<close> and \<open>text\<close>, into which \<open>copy\<close> stores at
  most \<open>N\<close> characters.
\<close>

record 'f Library =
  StrToU32 :: "string \<Rightarrow> 32 word \<times> bool"
  StrToI32 :: "string \<Rightarrow> 32 word \<times> bool"
  SafeStrtof :: "string \<Rightarrow> 'f \<times> bool"
  round_float :: "'f \<Rightarrow> 32 word"
  titleLength :: nat
  alertTextLength :: nat

text \<open>\<open>s[0] == 0\<close>: the C string is empty.\<close>

definition empty_string :: "string \<Rightarrow> bool" where
  "empty_string s = (case s of [] \<Rightarrow> True | c # cs \<Rightarrow> (of_char c :: nat) = 0)"

text \<open>
  \<open>GetUnsignedInteger\<close>, \<open>GetInteger\<close>, \<open>GetFloat\<close>: the result flag and the new value of
  the reference parameter \<open>rslt\<close>, which is written before the end pointer is looked at.
\<close>

definition GetUnsignedInteger :: "'f Library \<Rightarrow> string \<Rightarrow> 32 word \<Rightarrow> bool \<times> 32 word" where
  "GetUnsignedInteger L s rslt =
     (if empty_string s then (False, rslt)
      else (snd (StrToU32 L s), fst (StrToU32 L s)))"

definition GetInteger :: "'f Library \<Rightarrow> string \<Rightarrow> 32 word \<Rightarrow> bool \<times> 32 word" where
  "GetInteger L s rslt =
     (if empty_string s then (False, rslt)
      else if snd (StrToI32 L s) then (True, fst (StrToI32 L s))
      else if snd (SafeStrtof L s) then (True, round_float L (fst (SafeStrtof L s)))
      else (False, fst (StrToI32 L s)))"

definition GetFloat :: "'f Library \<Rightarrow> string \<Rightarrow> 'f \<Rightarrow> bool \<times> 'f" where
  "GetFloat L s rslt =
     (if empty_string s then (False, rslt)
      else (snd (SafeStrtof L s), fst (SafeStrtof L s)))"

text \<open>
  The calls into the collaborators that concern alerts, the message log and the restart
  of the remote, recorded in the order in which they are made.
\<close>

datatype 'f Call =
    UI_ProcessAlert "'f Alert"
  | UI_ClearAlert
  | UI_ProcessSimpleAlert string
  | UI_ResetBedAndChamber
  | SetStatus "string option"
  | MessageLog_DisplayNewMessage

text \<open>
  The globals of PanelDue.cpp that the scheduler and the session work on.  The counters
  of the array handling (\<open>lastTool\<close>, \<open>lastSpindle\<close>, \<open>visibleAxesCounted\<close>,
  \<open>mountedVolumesCounted\<close>), the printer status and everything owned by the display,
  the file manager and the object model are outside this record.
\<close>

record 'f PanelDue =
  seqs :: Seqs
  currentResponseType :: ReceivedDataEvent
  currentAlert :: "'f Alert"
  lastAlertSeq :: "32 word"
  remoteUpTime :: "32 word"
  initialized :: bool
  messageSeq :: "32 word"
  newMessageSeq :: "32 word"
  lastResponseTime :: "32 word"
  calls :: "'f Call list"

definition call :: "'f Call \<Rightarrow> 'f PanelDue \<Rightarrow> 'f PanelDue" where
  "call c s = s\<lparr>calls := calls s @ [c]\<rparr>"

definition Reconnect :: "'f PanelDue \<Rightarrow> 'f PanelDue" where
  "Reconnect s = call (SetStatus None) (s\<lparr>initialized := False\<rparr>)"

definition resetSeqs :: "'f PanelDue \<Rightarrow> 'f PanelDue" where
  "resetSeqs s = Reconnect (s\<lparr>seqs := resetSeqsFields (seqs s)\<rparr>)"

definition StartReceivedMessage :: "'f PanelDue \<Rightarrow> 'f PanelDue" where
  "StartReceivedMessage s =
     s\<lparr>newMessageSeq := messageSeq s, currentAlert := (currentAlert s)\<lparr>flags := 0\<rparr>\<rparr>"

text \<open>
  \<open>EndReceivedMessage\<close>, in the three steps of its body: the bookkeeping of the response
  (\<open>now\<close> is the tick count it reads), the message log, and the staged alert.
\<close>

definition EndReceivedMessage_response :: "32 word \<Rightarrow> 'f PanelDue \<Rightarrow> 'f PanelDue" where
  "EndReceivedMessage_response now s =
     s\<lparr>lastResponseTime := now,
       seqs := SeqsRequestDone (currentResponseType s) (seqs s),
       currentResponseType := rcvUnknown\<rparr>"

definition EndReceivedMessage_log :: "'f PanelDue \<Rightarrow> 'f PanelDue" where
  "EndReceivedMessage_log s =
     (if newMessageSeq s \<noteq> messageSeq s
      then call MessageLog_DisplayNewMessage (s\<lparr>messageSeq := newMessageSeq s\<rparr>)
      else s)"

definition EndReceivedMessage_alert :: "'f PanelDue \<Rightarrow> 'f PanelDue" where
  "EndReceivedMessage_alert s =
     (if flags (currentAlert s) AND GotMode \<noteq> 0 \<and> sint (mode (currentAlert s)) < 0
      then call UI_ClearAlert s
      else if flags (currentAlert s) = GotAll \<and> seq (currentAlert s) \<noteq> lastAlertSeq s
      then (call (UI_ProcessAlert (currentAlert s)) s)\<lparr>lastAlertSeq := seq (currentAlert s)\<rparr>
      else s)"

definition EndReceivedMessage :: "32 word \<Rightarrow> 'f PanelDue \<Rightarrow> 'f PanelDue" where
  "EndReceivedMessage now s =
     EndReceivedMessage_alert (EndReceivedMessage_log (EndReceivedMessage_response now s))"

definition is_LiveSeqs :: "ReceivedDataEvent \<Rightarrow> bool" where
  "is_LiveSeqs r \<longleftrightarrow>
     r \<in> set [rcvLiveSeqsBoards, rcvLiveSeqsDirectories, rcvLiveSeqsFans, rcvLiveSeqsHeat,
              rcvLiveSeqsInputs, rcvLiveSeqsJob, rcvLiveSeqsMove, rcvLiveSeqsNetwork,
              rcvLiveSeqsReply, rcvLiveSeqsScanner, rcvLiveSeqsSensors, rcvLiveSeqsSpindles,
              rcvLiveSeqsState, rcvLiveSeqsTools, rcvLiveSeqsVolumes]"

definition stage :: "('f Alert \<Rightarrow> 'f Alert) \<Rightarrow> 'f PanelDue \<Rightarrow> 'f PanelDue" where
  "stage f s = s\<lparr>currentAlert := f (currentAlert s)\<rparr>"

text \<open>
  The \<open>switch\<close> of \<open>ProcessReceivedValue\<close> on the code \<open>rde\<close> (here \<open>rde'\<close>) that
  \<open>bsearch\<close> returned for the field path, with the value text \<open>data\<close>.  The cases that
  are not listed act only on what is outside the record.
\<close>

definition ProcessReceivedValue ::
  "'f Library \<Rightarrow> ReceivedDataEvent \<Rightarrow> string \<Rightarrow> 'f PanelDue \<Rightarrow> 'f PanelDue"
where
  "ProcessReceivedValue L rde' data s =
     (if rde' = rcvKey then
        s\<lparr>currentResponseType :=
             bsearch keyResponseTypeTable (length keyResponseTypeTable) data\<rparr>
      else if is_LiveSeqs rde' then
        (case GetInteger L data 0 of
           (True, ival) \<Rightarrow> s\<lparr>seqs := UpdateSeqs rde' ival (seqs s)\<rparr>
         | (False, ival) \<Rightarrow> s)
      else if rde' = rcvLiveStateStatus then call (SetStatus (Some data)) s
      else if rde' = rcvLiveStateUptime then
        (case GetUnsignedInteger L data 0 of
           (True, uival) \<Rightarrow>
             (if uival < remoteUpTime s
              then call UI_ResetBedAndChamber (resetSeqs s)
              else s)\<lparr>remoteUpTime := uival\<rparr>
         | (False, uival) \<Rightarrow> s)
      else if rde' = rcvStateMessageBox then
        (if empty_string data then call UI_ClearAlert s else s)
      else if rde' = rcvStateMessageBoxAxisControls then
        (case GetUnsignedInteger L data (controls (currentAlert s)) of
           (ok, v) \<Rightarrow>
             stage (\<lambda>a. a\<lparr>controls := v, flags := (if ok then flags a OR GotControls else flags a)\<rparr>) s)
      else if rde' = rcvStateMessageBoxMessage then
        stage (\<lambda>a. a\<lparr>text' := take (alertTextLength L) data, flags := flags a OR GotText\<rparr>) s
      else if rde' = rcvStateMessageBoxMode then
        (case GetInteger L data (mode (currentAlert s)) of
           (ok, v) \<Rightarrow>
             stage (\<lambda>a. a\<lparr>mode := v, flags := (if ok then flags a OR GotMode else flags a)\<rparr>) s)
      else if rde' = rcvStateMessageBoxSeq then
        (case GetUnsignedInteger L data (seq (currentAlert s)) of
           (ok, v) \<Rightarrow>
             stage (\<lambda>a. a\<lparr>seq := v, flags := (if ok then flags a OR GotSeq else flags a)\<rparr>) s)
      else if rde' = rcvStateMessageBoxTimeout then
        (case GetFloat L data (timeout (currentAlert s)) of
           (ok, v) \<Rightarrow>
             stage (\<lambda>a. a\<lparr>timeout := v, flags := (if ok then flags a OR GotTimeout else flags a)\<rparr>) s)
      else if rde' = rcvStateMessageBoxTitle then
        stage (\<lambda>a. a\<lparr>title := take (titleLength L) data, flags := flags a OR GotTitle\<rparr>) s
      else if rde' = rcvPushMessage then
        (if empty_string data then call UI_ClearAlert s
         else call (UI_ProcessSimpleAlert data) s)
      else if rde' = rcvPushSeq then
        s\<lparr>newMessageSeq := snd (GetUnsignedInteger L data (newMessageSeq s))\<rparr>
      else s)"

text \<open>
  A message as the serial module delivers it: \<open>StartReceivedMessage\<close>, one
  \<open>ProcessReceivedValue\<close> per tuple, \<open>EndReceivedMessage\<close>.  \<open>staged\<close> is the state before
  the end of the message.
\<close>

type_synonym message = "(ReceivedDataEvent \<times> string) list"

definition staged :: "'f Library \<Rightarrow> message \<Rightarrow> 'f PanelDue \<Rightarrow> 'f PanelDue" where
  "staged L msg s = foldl (\<lambda>s t. ProcessReceivedValue L (fst t) (snd t) s) (StartReceivedMessage s) msg"

definition ReceiveMessage :: "'f Library \<Rightarrow> 32 word \<Rightarrow> message \<Rightarrow> 'f PanelDue \<Rightarrow> 'f PanelDue" where
  "ReceiveMessage L now msg s = EndReceivedMessage now (staged L msg s)"

fun ReceiveMessages :: "'f Library \<Rightarrow> 32 word \<Rightarrow> message list \<Rightarrow> 'f PanelDue \<Rightarrow> 'f PanelDue" where
  "ReceiveMessages L now [] s = s"
| "ReceiveMessages L now (m # ms) s = ReceiveMessages L now ms (ReceiveMessage L now m s)"

text \<open>The number of alerts handed to the display, and of restart recoveries.\<close>

fun is_alert :: "'f Call \<Rightarrow> bool" where
  "is_alert (UI_ProcessAlert a) = True"
| "is_alert c = False"

definition alerts_delivered :: "'f PanelDue \<Rightarrow> nat" where
  "alerts_delivered s = length (filter is_alert (calls s))"

definition restarts_detected :: "'f PanelDue \<Rightarrow> nat" where
  "restarts_detected s = length (filter (\<lambda>c. c = UI_ResetBedAndChamber) (calls s))"

text \<open>
  The values of the globals when the main loop is entered: the static initialisers,
  then the call of \<open>resetSeqs\<close> in \<open>main\<close>.  \<open>a0\<close> is the default-constructed alert.
\<close>

definition startup :: "'f Alert \<Rightarrow> 'f PanelDue" where
  "startup a0 =
     resetSeqs
       \<lparr>seqs = \<lparr>boards = 0, directories = 0, fans = 0, heat = 0, inputs = 0, job = 0,
                 move = 0, network = 0, scanner = 0, sensors = 0, spindles = 0, state = 0,
                 tools = 0, volumes = 0,
                 updateBoards = False, updateDirectories = False, updateFans = False,
                 updateHeat = False, updateInputs = False, updateJob = False,
                 updateMove = False, updateNetwork = False, updateScanner = False,
                 updateSensors = False, updateSpindles = False, updateState = False,
                 updateTools = False, updateVolumes = False\<rparr>,
        currentResponseType = rcvUnknown, currentAlert = a0, lastAlertSeq = 0,
        remoteUpTime = 0, initialized = False, messageSeq = 0, newMessageSeq = 0,
        lastResponseTime = 0, calls = []\<rparr>"

text \<open>
  A stand-in for the library's conversions that reads plain decimal numerals (with an
  optional minus sign for the signed ones), with \<open>int\<close> in the place of \<open>float\<close>.  It
  serves to run the model on concrete messages.
\<close>

fun read_digits :: "string \<Rightarrow> nat \<Rightarrow> nat \<times> string" where
  "read_digits [] acc = (acc, [])"
| "read_digits (c # cs) acc =
     (if 48 \<le> (of_char c :: nat) \<and> (of_char c :: nat) \<le> 57
      then read_digits cs (acc * 10 + ((of_char c :: nat) - 48))
      else (acc, c # cs))"

definition read_unsigned :: "string \<Rightarrow> nat \<times> bool" where
  "read_unsigned s = (fst (read_digits s 0), snd (read_digits s 0) = [])"

definition read_signed :: "string \<Rightarrow> int \<times> bool" where
  "read_signed s =
     (case s of
        [] \<Rightarrow> (0, True)
      | c # cs \<Rightarrow>
          if c = CHR ''-'' then (- int (fst (read_unsigned cs)), cs \<noteq> [] \<and> snd (read_unsigned cs))
          else (int (fst (read_unsigned s)), snd (read_unsigned s)))"

definition decimalLibrary :: "int Library" where
  "decimalLibrary =
     \<lparr>StrToU32 = (\<lambda>s. (of_nat (fst (read_unsigned s)), snd (read_unsigned s))),
      StrToI32 = (\<lambda>s. (of_int (fst (read_signed s)), snd (read_signed s))),
      SafeStrtof = read_signed,
      round_float = of_int,
      titleLength = 50,
      alertTextLength = 165\<rparr>"

definition default_alert :: "int Alert" where
  "default_alert =
     \<lparr>mode = 0, seq = 0, controls = 0, timeout = 0, flags = 0, title = [], text' = []\<rparr>"

text \<open>A message that reports the up time, and a complete alert message.\<close>

definition uptime_message :: "string \<Rightarrow> message" where
  "uptime_message d = [(rcvLiveStateUptime, d)]"

definition alert_message :: "string \<Rightarrow> string \<Rightarrow> message" where
  "alert_message m q =
     [(rcvStateMessageBoxAxisControls, ''0''), (rcvStateMessageBoxMessage, ''hello''),
      (rcvStateMessageBoxMode, m), (rcvStateMessageBoxSeq, q),
      (rcvStateMessageBoxTimeout, ''0''), (rcvStateMessageBoxTitle, ''note'')]"

text \<open>The same message without the \<open>axisControls\<close> field: five of the six fields.\<close>

definition partial_alert_message :: "string \<Rightarrow> string \<Rightarrow> message" where
  "partial_alert_message m q = tl (alert_message m q)"

text \<open>Every update flag of the scheduler is set.\<close>

definition all_dirty :: "Seqs \<Rightarrow> bool" where
  "all_dirty q \<longleftrightarrow>
     updateBoards q \<and> updateDirectories q \<and> updateFans q \<and> updateHeat q \<and> updateInputs q
     \<and> updateJob q \<and> updateMove q \<and> updateNetwork q \<and> updateScanner q \<and> updateSensors q
     \<and> updateSpindles q \<and> updateState q \<and> updateTools q \<and> updateVolumes q"

text \<open>
  Whether \<open>EndReceivedMessage\<close> hands the staged alert to the display; a message is a
  complete alert message with sequence number \<open>q\<close> when all six fields are staged at its
  end and the staged sequence number is \<open>q\<close>.
\<close>

definition delivers :: "'f PanelDue \<Rightarrow> bool" where
  "delivers s \<longleftrightarrow>
     (flags (currentAlert s) AND GotMode = 0 \<or> 0 \<le> sint (mode (currentAlert s)))
     \<and> flags (currentAlert s) = GotAll \<and> seq (currentAlert s) \<noteq> lastAlertSeq s"

definition complete_alert :: "'f Library \<Rightarrow> message \<Rightarrow> 'f PanelDue \<Rightarrow> 32 word \<Rightarrow> bool" where
  "complete_alert L msg s q \<longleftrightarrow>
     flags (currentAlert (staged L msg s)) = GotAll \<and> seq (currentAlert (staged L msg s)) = q"

text \<open>The six composite fields of an alert with their flags.\<close>

definition composite_fields :: "(ReceivedDataEvent \<times> 8 word) list" where
  "composite_fields =
     [(rcvStateMessageBoxMessage, GotText), (rcvStateMessageBoxTitle, GotTitle),
      (rcvStateMessageBoxMode, GotMode), (rcvStateMessageBoxSeq, GotSeq),
      (rcvStateMessageBoxTimeout, GotTimeout), (rcvStateMessageBoxAxisControls, GotControls)]"

text \<open>
  Two staged alerts agree when they have the same flags and the same value in every
  field whose flag is set.
\<close>

definition alert_agree :: "'f Alert \<Rightarrow> 'f Alert \<Rightarrow> bool" where
  "alert_agree a b \<longleftrightarrow>
     flags a = flags b
     \<and> (flags a AND GotMode = 0 \<or> mode a = mode b)
     \<and> (flags a AND GotSeq = 0 \<or> seq a = seq b)
     \<and> (flags a AND GotTimeout = 0 \<or> timeout a = timeout b)
     \<and> (flags a AND GotTitle = 0 \<or> title a = title b)
     \<and> (flags a AND GotText = 0 \<or> text' a = text' b)
     \<and> (flags a AND GotControls = 0 \<or> controls a = controls b)"

definition related :: "'f PanelDue \<Rightarrow> 'f PanelDue \<Rightarrow> bool" where
  "related s s' \<longleftrightarrow>
     s' = s\<lparr>currentAlert := currentAlert s'\<rparr> \<and> alert_agree (currentAlert s) (currentAlert s')"

text \<open>
  Per subsystem: its sequence counter, the code of its \<open>seqs\<close> field in a reply, and
  whether its detailed request is compiled in.
\<close>

fun spec_counter :: "Seqs \<Rightarrow> Subsystem \<Rightarrow> 16 word" where
  "spec_counter q Network = network q"
| "spec_counter q Boards = boards q"
| "spec_counter q Move = move q"
| "spec_counter q Heat = heat q"
| "spec_counter q Tools = Seqs.tools q"
| "spec_counter q Spindles = Seqs.spindles q"
| "spec_counter q Directories = directories q"
| "spec_counter q Fans = fans q"
| "spec_counter q Inputs = inputs q"
| "spec_counter q Job = job q"
| "spec_counter q Scanner = scanner q"
| "spec_counter q Sensors = sensors q"
| "spec_counter q State = state q"
| "spec_counter q Volumes = volumes q"

fun seqs_code :: "Subsystem \<Rightarrow> ReceivedDataEvent" where
  "seqs_code Network = rcvLiveSeqsNetwork"
| "seqs_code Boards = rcvLiveSeqsBoards"
| "seqs_code Move = rcvLiveSeqsMove"
| "seqs_code Heat = rcvLiveSeqsHeat"
| "seqs_code Tools = rcvLiveSeqsTools"
| "seqs_code Spindles = rcvLiveSeqsSpindles"
| "seqs_code Directories = rcvLiveSeqsDirectories"
| "seqs_code Fans = rcvLiveSeqsFans"
| "seqs_code Inputs = rcvLiveSeqsInputs"
| "seqs_code Job = rcvLiveSeqsJob"
| "seqs_code Scanner = rcvLiveSeqsScanner"
| "seqs_code Sensors = rcvLiveSeqsSensors"
| "seqs_code State = rcvLiveSeqsState"
| "seqs_code Volumes = rcvLiveSeqsVolumes"

fun fetched :: "Subsystem \<Rightarrow> bool" where
  "fetched Network = FETCH_NETWORK"
| "fetched Boards = FETCH_BOARDS"
| "fetched Move = FETCH_MOVE"
| "fetched Heat = FETCH_HEAT"
| "fetched Tools = FETCH_TOOLS"
| "fetched Spindles = FETCH_SPINDLES"
| "fetched Directories = FETCH_DIRECTORIES"
| "fetched Fans = FETCH_FANS"
| "fetched Inputs = FETCH_INPUTS"
| "fetched Job = FETCH_JOB"
| "fetched Scanner = FETCH_SCANNER"
| "fetched Sensors = FETCH_SENSORS"
| "fetched State = FETCH_STATE"
| "fetched Volumes = FETCH_VOLUMES"

section \<open>Properties of the poll scheduler\<close>

lemmas FETCH_defs =
  FETCH_BOARDS_def FETCH_DIRECTORIES_def FETCH_FANS_def FETCH_HEAT_def FETCH_INPUTS_def
  FETCH_JOB_def FETCH_MOVE_def FETCH_NETWORK_def FETCH_SCANNER_def FETCH_SENSORS_def
  FETCH_SPINDLES_def FETCH_STATE_def FETCH_TOOLS_def FETCH_VOLUMES_def

lemmas Params_defs =
  noKeyParams_def boardsParams_def directoriesParams_def fansParams_def heatParams_def
  inputsParams_def jobParams_def moveParams_def networkParams_def scannerParams_def
  sensorsParams_def spindlesParams_def stateParams_def toolsParams_def volumesParams_def


text \<open>
  Claim C3.  For every combination of dirty bits, \<open>GetNextToPoll\<close> returns the detail
  request of the first dirty subsystem in the fixed order network, boards, move, heat,
  tools, spindles, directories, fans, inputs, job, scanner, sensors, state, volumes
  (and the null pointer when none is dirty).  With exactly heat, move and tools dirty it
  returns the move request, and once the move flag has been cleared by
  \<open>SeqsRequestDone\<close> it returns the heat request.
\<close>

theorem C3_poll_priority_order:
  "GetNextToPoll q = spec_NextAction q
   \<and> GetNextToPoll (only_heat_move_tools q) = Some moveParams
   \<and> GetNextToPoll (SeqsRequestDone rcvOMKeyMove (only_heat_move_tools q)) = Some heatParams"
  by (simp add: GetNextToPoll_def spec_NextAction_def spec_priority_order_def Params_defs
      only_heat_move_tools_def SeqsRequestDone_def)

section \<open>Properties of the field path dispatcher\<close>

lemma strcasecmp_less: "(strcasecmp a b < 0) = (ckey a < ckey b)"
  by (induction a b rule: strcasecmp.induct) (auto simp: ckey_def)

lemma strcasecmp_eq: "(strcasecmp a b = 0) = (ckey a = ckey b)"
  by (induction a b rule: strcasecmp.induct) (auto simp: ckey_def)

lemma strcasecmp_greater: "(0 < strcasecmp a b) = (ckey b < ckey a)"
  using strcasecmp_less [of a b] strcasecmp_eq [of a b] by (auto simp: not_less le_less)

lemma strcasecmp_le: "(strcasecmp a b \<le> 0) = (ckey a \<le> ckey b)"
  using strcasecmp_less [of a b] strcasecmp_eq [of a b] by (auto simp: le_less)

lemma cmp_le: "(cmp a b \<le> 0) = (tkey a \<le> tkey b)"
  by (simp add: cmp_def tkey_def strcasecmp_le)

subsection \<open>Sorting\<close>

lemma set_qsort_insert: "set (qsort_insert e xs) = insert e (set xs)"
  by (induction xs) auto

lemma mset_qsort_insert: "mset (qsort_insert e xs) = add_mset e (mset xs)"
  by (induction xs) auto

lemma sorted_qsort_insert:
  "sorted (map tkey xs) \<Longrightarrow> sorted (map tkey (qsort_insert e xs))"
  by (induction xs) (auto simp: cmp_le set_qsort_insert)

lemma mset_qsort: "mset (qsort t) = mset t"
  by (induction t) (simp_all add: qsort_def mset_qsort_insert)

lemma sorted_qsort: "sorted (map tkey (qsort t))"
  by (induction t) (simp_all add: qsort_def sorted_qsort_insert)

subsection \<open>Binary search\<close>

lemma bsearch_loop_correct:
  assumes "sorted (map tkey tbl)"
    and "low \<le> high" and "high \<le> length tbl"
    and "\<forall>i<low. tkey (tbl ! i) < ckey k"
    and "\<forall>i. high \<le> i \<and> i < length tbl \<longrightarrow> ckey k < tkey (tbl ! i)"
  shows "(\<exists>e\<in>set tbl. tkey e = ckey k \<and> bsearch_loop tbl (length tbl) k low high = rde e)
       \<or> ((\<forall>e\<in>set tbl. tkey e \<noteq> ckey k)
            \<and> bsearch_loop tbl (length tbl) k low high = rcvUnknown)"
  using assms
proof (induction "high - low" arbitrary: low high rule: less_induct)
  case less
  let ?n = "length tbl"
  have mono: "\<And>i j. i \<le> j \<Longrightarrow> j < ?n \<Longrightarrow> tkey (tbl ! i) \<le> tkey (tbl ! j)"
  proof -
    fix i j assume "i \<le> j" "j < ?n"
    with less.prems(1) have "map tkey tbl ! i \<le> map tkey tbl ! j"
      by (intro sorted_nth_mono) simp_all
    with \<open>i \<le> j\<close> \<open>j < ?n\<close> show "tkey (tbl ! i) \<le> tkey (tbl ! j)" by simp
  qed
  show ?case
  proof (cases "low < high")
    case False
    with less.prems(2) have eq: "low = high" by simp
    have none: "\<forall>e\<in>set tbl. tkey e \<noteq> ckey k"
    proof
      fix e assume "e \<in> set tbl"
      then obtain i where i: "i < ?n" "tbl ! i = e" by (auto simp: in_set_conv_nth)
      show "tkey e \<noteq> ckey k"
      proof (cases "i < low")
        case True
        with less.prems(4) i show ?thesis by auto
      next
        case False
        with eq i less.prems(5) have "ckey k < tkey (tbl ! i)" by auto
        with i show ?thesis by auto
      qed
    qed
    have "\<not> (low < ?n \<and> strcasecmp k (varName (tbl ! low)) = 0)"
    proof
      assume a: "low < ?n \<and> strcasecmp k (varName (tbl ! low)) = 0"
      then have "tbl ! low \<in> set tbl" by simp
      with none have "tkey (tbl ! low) \<noteq> ckey k" by blast
      with a show False by (simp add: strcasecmp_eq tkey_def)
    qed
    with False have "bsearch_loop tbl ?n k low high = rcvUnknown"
      by (subst bsearch_loop.simps) auto
    with none show ?thesis by blast
  next
    case True
    define mid where "mid = (high - low) div 2 + low"
    have m: "low \<le> mid" "mid < high" using True by (simp_all add: mid_def) 
    with less.prems(3) have mn: "mid < ?n" by simp
    then have mem: "tbl ! mid \<in> set tbl" by simp
    let ?t = "strcasecmp k (varName (tbl ! mid))"
    consider (eq) "?t = 0" | (gt) "0 < ?t" | (lt) "?t < 0" by linarith
    then show ?thesis
    proof cases
      case eq
      with True have "bsearch_loop tbl ?n k low high = rde (tbl ! mid)"
        by (subst bsearch_loop.simps) (simp add: mid_def Let_def)
      moreover from eq have "tkey (tbl ! mid) = ckey k" by (simp add: strcasecmp_eq tkey_def)
      ultimately show ?thesis using mem by blast
    next
      case gt
      with True have r: "bsearch_loop tbl ?n k low high = bsearch_loop tbl ?n k (mid + 1) high"
        by (subst bsearch_loop.simps) (simp add: mid_def Let_def)
      from gt have k: "tkey (tbl ! mid) < ckey k" by (simp add: strcasecmp_greater tkey_def)
      have below: "\<forall>i<mid + 1. tkey (tbl ! i) < ckey k"
      proof (intro allI impI)
        fix i assume "i < mid + 1"
        then have "i \<le> mid" by simp
        from mono [OF this mn] k show "tkey (tbl ! i) < ckey k" by simp
      qed
      have "high - (mid + 1) < high - low" using m by simp
      from less.hyps [OF this less.prems(1) _ less.prems(3) below less.prems(5)] m r
      show ?thesis by simp
    next
      case lt
      with True have r: "bsearch_loop tbl ?n k low high = bsearch_loop tbl ?n k low mid"
        by (subst bsearch_loop.simps) (simp add: mid_def Let_def)
      from lt have k: "ckey k < tkey (tbl ! mid)" by (simp add: strcasecmp_less tkey_def)
      have above: "\<forall>i. mid \<le> i \<and> i < ?n \<longrightarrow> ckey k < tkey (tbl ! i)"
      proof (intro allI impI)
        fix i assume "mid \<le> i \<and> i < ?n"
        then have "tkey (tbl ! mid) \<le> tkey (tbl ! i)" using mono by blast
        with k show "ckey k < tkey (tbl ! i)" by simp
      qed
      have "mid - low < high - low" using m by simp
      from less.hyps [OF this less.prems(1) m(1) _ less.prems(4) above] mn r
      show ?thesis by simp
    qed
  qed
qed

lemma bsearch_correct:
  assumes "sorted (map tkey tbl)"
  shows "(\<exists>e\<in>set tbl. tkey e = ckey k \<and> bsearch tbl (length tbl) k = rde e)
       \<or> ((\<forall>e\<in>set tbl. tkey e \<noteq> ckey k) \<and> bsearch tbl (length tbl) k = rcvUnknown)"
  unfolding bsearch_def by (rule bsearch_loop_correct [OF assms]) auto

lemma bsearch_found:
  assumes "sorted (map tkey tbl)" and "distinct (map tkey tbl)" and "e \<in> set tbl"
  shows "bsearch tbl (length tbl) (varName e) = rde e"
proof -
  from assms(3) have "\<not> (\<forall>x\<in>set tbl. tkey x \<noteq> ckey (varName e))" by (auto simp: tkey_def)
  with bsearch_correct [OF assms(1), of "varName e"]
  obtain x where x: "x \<in> set tbl" "tkey x = ckey (varName e)"
    "bsearch tbl (length tbl) (varName e) = rde x" by blast
  from assms(2) have "inj_on tkey (set tbl)" by (simp add: distinct_map)
  with x(1,2) assms(3) have "x = e" by (auto simp: inj_on_def tkey_def)
  with x(3) show ?thesis by simp
qed

lemma bsearch_unknown:
  assumes "sorted (map tkey tbl)" and "\<forall>e\<in>set tbl. strcasecmp k (varName e) \<noteq> 0"
  shows "bsearch tbl (length tbl) k = rcvUnknown"
proof -
  from assms(2) have "\<forall>e\<in>set tbl. tkey e \<noteq> ckey k"
    by (auto simp: strcasecmp_eq tkey_def)
  with bsearch_correct [OF assms(1), of k] show ?thesis by blast
qed

lemma distinct_fieldTable: "distinct (map tkey fieldTable)"
  by (simp add: fieldTable_def tkey_def ckey_def tolower_def)

lemma bsearch_match:
  assumes "sorted (map tkey tbl)" and "distinct (map tkey tbl)" and "e \<in> set tbl"
    and "strcasecmp k (varName e) = 0"
  shows "bsearch tbl (length tbl) k = rde e"
proof -
  from assms(4) have ke: "tkey e = ckey k" by (simp add: strcasecmp_eq tkey_def)
  with assms(3) have "\<not> (\<forall>x\<in>set tbl. tkey x \<noteq> ckey k)" by auto
  with bsearch_correct [OF assms(1), of k]
  obtain x where x: "x \<in> set tbl" "tkey x = ckey k" "bsearch tbl (length tbl) k = rde x"
    by blast
  from assms(2) have "inj_on tkey (set tbl)" by (simp add: distinct_map)
  with x(1,2) assms(3) ke have "x = e" by (auto simp: inj_on_def)
  with x(3) show ?thesis by simp
qed

lemma strcasecmp_refl: "strcasecmp a a = 0"
  by (simp add: strcasecmp_eq)

lemma sorted_table_lookup:
  assumes perm: "mset s = mset fieldTable" and srt: "sorted_wrt (\<lambda>a b. cmp a b \<le> 0) s"
  shows "e \<in> set fieldTable \<Longrightarrow> strcasecmp k (varName e) = 0 \<Longrightarrow> bsearch s (length s) k = rde e"
    and "\<forall>e\<in>set fieldTable. strcasecmp k (varName e) \<noteq> 0 \<Longrightarrow> bsearch s (length s) k = rcvUnknown"
proof -
  from srt have s: "sorted (map tkey s)" by (simp add: sorted_map cmp_le)
  from perm have "mset (map tkey s) = mset (map tkey fieldTable)" by simp
  then have "distinct (map tkey s) = distinct (map tkey fieldTable)"
    by (rule mset_eq_imp_distinct_iff)
  with distinct_fieldTable have d: "distinct (map tkey s)" by simp
  from perm have st: "set s = set fieldTable" by (rule mset_eq_setD)
  show "e \<in> set fieldTable \<Longrightarrow> strcasecmp k (varName e) = 0 \<Longrightarrow> bsearch s (length s) k = rde e"
    using bsearch_match [OF s d] st by simp
  show "\<forall>e\<in>set fieldTable. strcasecmp k (varName e) \<noteq> 0 \<Longrightarrow> bsearch s (length s) k = rcvUnknown"
    using bsearch_unknown [OF s] st by simp
qed

lemma sorted_wrt_qsort: "sorted_wrt (\<lambda>a b. cmp a b \<le> 0) (qsort t)"
  using sorted_qsort [of t] by (simp add: sorted_map cmp_le)

text \<open>
  Claim C4.  Let the table be declared in any order \<open>t\<close> (any rearrangement of
  \<open>fieldTable\<close>) and sorted once by \<open>strcasecmp\<close> on the paths.  Then for every entry of
  the table the binary search applied to the entry's path returns the entry's code; a
  key that \<open>strcasecmp\<close> equates with an entry's path returns that entry's code; and a
  key that \<open>strcasecmp\<close> equates with no entry's path returns \<open>rcvUnknown\<close>.  Presence
  in the table is presence under the comparison the lookup uses, which ignores case.
  The second half states the same for every table \<open>s\<close> that is a rearrangement of
  \<open>fieldTable\<close> in ascending order of the comparison function, which is all that the C
  library promises of \<open>qsort\<close>.
\<close>

theorem C4_dispatch_after_sort:
  "(mset t = mset fieldTable \<longrightarrow>
      (\<forall>e\<in>set fieldTable. Dispatch t (varName e) = rde e)
      \<and> (\<forall>e\<in>set fieldTable. strcasecmp k (varName e) = 0 \<longrightarrow> Dispatch t k = rde e)
      \<and> ((\<forall>e\<in>set fieldTable. strcasecmp k (varName e) \<noteq> 0) \<longrightarrow> Dispatch t k = rcvUnknown))
   \<and> (mset s = mset fieldTable \<and> sorted_wrt (\<lambda>a b. cmp a b \<le> 0) s \<longrightarrow>
      (\<forall>e\<in>set fieldTable. bsearch s (length fieldTable) (varName e) = rde e)
      \<and> (\<forall>e\<in>set fieldTable. strcasecmp k' (varName e) = 0 \<longrightarrow>
            bsearch s (length fieldTable) k' = rde e)
      \<and> ((\<forall>e\<in>set fieldTable. strcasecmp k' (varName e) \<noteq> 0) \<longrightarrow>
            bsearch s (length fieldTable) k' = rcvUnknown))"
proof (intro conjI impI ballI)
  fix e
  assume t: "mset t = mset fieldTable" and e: "e \<in> set fieldTable"
  from t have q: "mset (qsort t) = mset fieldTable" by (simp add: mset_qsort)
  from sorted_table_lookup(1) [OF q sorted_wrt_qsort e strcasecmp_refl]
  show "Dispatch t (varName e) = rde e" by (simp add: Dispatch_def)
next
  fix e
  assume t: "mset t = mset fieldTable" and e: "e \<in> set fieldTable"
    and k: "strcasecmp k (varName e) = 0"
  from t have q: "mset (qsort t) = mset fieldTable" by (simp add: mset_qsort)
  from sorted_table_lookup(1) [OF q sorted_wrt_qsort e k]
  show "Dispatch t k = rde e" by (simp add: Dispatch_def)
next
  assume t: "mset t = mset fieldTable"
    and k: "\<forall>e\<in>set fieldTable. strcasecmp k (varName e) \<noteq> 0"
  from t have q: "mset (qsort t) = mset fieldTable" by (simp add: mset_qsort)
  from sorted_table_lookup(2) [OF q sorted_wrt_qsort k]
  show "Dispatch t k = rcvUnknown" by (simp add: Dispatch_def)
next
  fix e
  assume s: "mset s = mset fieldTable \<and> sorted_wrt (\<lambda>a b. cmp a b \<le> 0) s"
    and e: "e \<in> set fieldTable"
  from s have l: "length s = length fieldTable" by (metis size_mset)
  from s sorted_table_lookup(1) [OF _ _ e strcasecmp_refl, of s] l
  show "bsearch s (length fieldTable) (varName e) = rde e" by simp
next
  fix e
  assume s: "mset s = mset fieldTable \<and> sorted_wrt (\<lambda>a b. cmp a b \<le> 0) s"
    and e: "e \<in> set fieldTable" and k: "strcasecmp k' (varName e) = 0"
  from s have l: "length s = length fieldTable" by (metis size_mset)
  from s sorted_table_lookup(1) [OF _ _ e k, of s] l
  show "bsearch s (length fieldTable) k' = rde e" by simp
next
  assume s: "mset s = mset fieldTable \<and> sorted_wrt (\<lambda>a b. cmp a b \<le> 0) s"
    and k: "\<forall>e\<in>set fieldTable. strcasecmp k' (varName e) \<noteq> 0"
  from s have l: "length s = length fieldTable" by (metis size_mset)
  from s sorted_table_lookup(2) [OF _ _ k, of s] l
  show "bsearch s (length fieldTable) k' = rcvUnknown" by simp
qed

text \<open>
  The table declared in reverse order: the path \<open>state:upTime\<close>, also in capitals, is
  found, and \<open>state:up\<close>, which is no entry's path, is unknown.
\<close>

theorem C4_witness:
  "mset (rev fieldTable) = mset fieldTable
   \<and> Dispatch (rev fieldTable) ''state:upTime'' = rcvLiveStateUptime
   \<and> strcasecmp ''STATE:UPTIME'' ''state:upTime'' = 0
   \<and> Dispatch (rev fieldTable) ''STATE:UPTIME'' = rcvLiveStateUptime
   \<and> list_all (\<lambda>e. strcasecmp ''state:up'' (varName e) \<noteq> 0) fieldTable
   \<and> Dispatch (rev fieldTable) ''state:up'' = rcvUnknown
   \<and> mset (qsort fieldTable) = mset fieldTable
   \<and> sorted_wrt (\<lambda>a b. cmp a b \<le> 0) (qsort fieldTable)
   \<and> bsearch (qsort fieldTable) (length fieldTable) ''state:upTime'' = rcvLiveStateUptime
   \<and> bsearch (qsort fieldTable) (length fieldTable) ''state:up'' = rcvUnknown"
proof -
  let ?e = "\<lparr>rde = rcvLiveStateUptime, varName = ''state:upTime''\<rparr>"
  have m: "mset (rev fieldTable) = mset fieldTable" by simp
  have e: "?e \<in> set fieldTable" by (simp add: fieldTable_def)
  have u: "strcasecmp ''STATE:UPTIME'' (varName ?e) = 0" by (simp add: tolower_def)
  have n: "\<forall>e\<in>set fieldTable. strcasecmp ''state:up'' (varName e) \<noteq> 0"
    by (simp add: fieldTable_def tolower_def)
  have q: "mset (qsort fieldTable) = mset fieldTable
      \<and> sorted_wrt (\<lambda>a b. cmp a b \<le> 0) (qsort fieldTable)"
    by (simp add: mset_qsort sorted_wrt_qsort)
  from C4_dispatch_after_sort [where t = "rev fieldTable" and k = "''STATE:UPTIME''"
      and s = "qsort fieldTable" and k' = "''state:upTime''"] m e u q
  have a: "Dispatch (rev fieldTable) ''state:upTime'' = rcvLiveStateUptime
      \<and> Dispatch (rev fieldTable) ''STATE:UPTIME'' = rcvLiveStateUptime
      \<and> bsearch (qsort fieldTable) (length fieldTable) ''state:upTime'' = rcvLiveStateUptime"
    by fastforce
  from C4_dispatch_after_sort [where t = "rev fieldTable" and k = "''state:up''"
      and s = "qsort fieldTable" and k' = "''state:up''"] m n q
  have b: "Dispatch (rev fieldTable) ''state:up'' = rcvUnknown
      \<and> bsearch (qsort fieldTable) (length fieldTable) ''state:up'' = rcvUnknown"
    by blast
  from a b m u n q show ?thesis by (simp add: list_all_iff)
qed

section \<open>Properties of the object model store\<close>

subsection \<open>Conversions between the byte index and \<open>size_t\<close>\<close>

lemma unat_ucast_byte [simp]: "unat (ucast (w :: 8 word) :: 32 word) = unat w"
proof -
  have "unat w < 2 ^ 32" using unsigned_less [of w, where 'a = nat] by simp
  then show ?thesis by (simp add: unsigned_ucast_eq take_bit_nat_eq_self)
qed

lemma unat_ucast_small: "unat (i :: 32 word) < 256 \<Longrightarrow> unat (ucast i :: 8 word) = unat i"
  by (simp add: unsigned_ucast_eq take_bit_nat_eq_self)

lemma ucast_eq_small:
  fixes w :: "8 word" and i :: "32 word"
  assumes "unat i < 256"
  shows "(ucast w = i) = (w = ucast i)"
  using assms by (simp add: word_unat_eq_iff unat_ucast_small)

lemma ucast_less_small:
  fixes w :: "8 word" and i :: "32 word"
  assumes "unat i < 256"
  shows "(ucast w < i) = (w < ucast i)"
  using assms by (simp add: word_less_nat_alt unat_ucast_small)

lemma less_ucast_small:
  fixes w :: "8 word" and i :: "32 word"
  assumes "unat i < 256"
  shows "(i < ucast w) = (ucast i < w)"
  using assms by (simp add: word_less_nat_alt unat_ucast_small)

lemma scast_byte: "(scast (b :: 8 word) :: 32 word) = word_of_int (sint b)"
  by (simp add: of_int_sint)

lemma uint_word_of_int_32: "uint (word_of_int k :: 32 word) = take_bit 32 k"
  by (simp add: uint_word_of_int take_bit_eq_mod)

lemma unat_scast_nonneg:
  fixes b :: "8 word"
  assumes "0 \<le> sint b"
  shows "unat (scast b :: 32 word) < 256"
proof -
  have lt: "sint b < 128" using sint_lt [of b] by simp
  have "uint (scast b :: 32 word) = take_bit 32 (sint b)"
    unfolding scast_byte by (rule uint_word_of_int_32)
  also have "\<dots> = sint b" using assms lt by (simp add: take_bit_int_eq_self)
  finally have u: "uint (scast b :: 32 word) < 256" using lt by simp
  have "unat (scast b :: 32 word) = nat (uint (scast b :: 32 word))"
    by (rule unat_eq_nat_uint)
  with u show ?thesis by linarith
qed

subsection \<open>Removal\<close>

lemma Remove_scan_no_match:
  "\<forall>n\<in>set start. ucast (index n) \<noteq> i \<Longrightarrow> Remove_scan i allFollowing start = start"
  by (induction i allFollowing start rule: Remove_scan.induct) auto

lemma Remove_no_match:
  "\<forall>n\<in>set start. ucast (index n) \<noteq> i \<Longrightarrow> Remove start i allFollowing = Inr start"
  by (cases start) (auto simp: Remove_def Remove_scan_no_match)

lemma Remove_01234:
  assumes "map index start = [0, 1, 2, 3, 4]"
  shows "Remove start 2 True = Inr (take 2 start)"
proof -
  from assms obtain a b c d e where s: "start = [a, b, c, d, e]"
    and i: "index a = 0" "index b = 1" "index c = 2" "index d = 3" "index e = 4"
    by (auto simp: map_eq_Cons_conv)
  show ?thesis by (simp add: s i Remove_def)
qed

subsection \<open>Lookup and creation\<close>

lemma find_node_None: "find_node i ns = None \<longleftrightarrow> (\<forall>n\<in>set ns. ucast (index n) \<noteq> i)"
  by (induction ns) auto

lemma find_node_Some: "find_node i ns = Some n \<Longrightarrow> n \<in> set ns \<and> ucast (index n) = i"
  by (induction ns) (auto split: if_splits)

lemma set_insert_behind:
  "set (insert_behind ret i current rest) = insert ret (insert current (set rest))"
  by (induction ret i current rest rule: insert_behind.induct) auto

lemma insert_behind_sorted:
  assumes "unat i < 256" and "index ret = ucast i"
    and "sorted_wrt (<) (map index (current # rest))"
    and "index current < ucast i"
    and "\<forall>n\<in>set rest. ucast (index n) \<noteq> i"
  shows "sorted_wrt (<) (map index (insert_behind ret i current rest))"
  using assms
proof (induction ret i current rest rule: insert_behind.induct)
  case (1 ret i current)
  then show ?case by simp
next
  case (2 ret i current n ns)
  show ?case
  proof (cases "ucast (index n) < i")
    case True
    with 2 show ?thesis by (auto simp: ucast_less_small set_insert_behind)
  next
    case False
    from 2(2) False have a: "\<not> index n < ucast i" by (simp add: ucast_less_small)
    from 2(2,6) have b: "index n \<noteq> ucast i" by (simp add: ucast_eq_small)
    from a b have c: "ucast i < index n" by auto
    from 2(4) have d: "\<forall>x\<in>set ns. index n < index x" by simp
    from c d have e: "\<forall>x\<in>set ns. ucast i < index x" by auto
    from False 2 c e show ?thesis by auto
  qed
qed

lemma GetOrCreate_sorted:
  assumes "unat i < 256" and "sorted_wrt (<) (map index start)"
    and "GetOrCreate fresh h start i create = (r, h', l)"
  shows "sorted_wrt (<) (map index l)"
proof (cases "find_node i start")
  case (Some n)
  with assms show ?thesis by (simp add: GetOrCreate_def)
next
  case None
  then have nm: "\<forall>n\<in>set start. ucast (index n) \<noteq> i" by (simp add: find_node_None)
  show ?thesis
  proof (cases create)
    case False
    with None assms show ?thesis by (simp add: GetOrCreate_def)
  next
    case True
    show ?thesis
    proof (cases start)
      case Nil
      with None True assms show ?thesis by (auto simp: GetOrCreate_def)
    next
      case (Cons s rest)
      show ?thesis
      proof (cases "i < ucast (index s)")
        case lt: True
        then have "ucast i < index s" using assms(1) by (simp add: less_ucast_small)
        moreover from assms(2) Cons have "\<forall>x\<in>set rest. index s < index x" by simp
        ultimately have "\<forall>x\<in>set start. ucast i < index x" using Cons by auto
        with None True Cons lt assms show ?thesis by (auto simp: GetOrCreate_def Let_def)
      next
        case ge: False
        from nm Cons have "ucast (index s) \<noteq> i" by simp
        with ge have "ucast (index s) < i" by auto
        then have lt: "index s < ucast i" using assms(1) by (simp add: ucast_less_small)
        have "sorted_wrt (<) (map index (insert_behind (fresh\<lparr>addr := h, index := ucast i\<rparr>) i s rest))"
          using assms(1,2) Cons lt nm by (intro insert_behind_sorted) auto
        with None True Cons ge assms(3) show ?thesis by (auto simp: GetOrCreate_def Let_def)
      qed
    qed
  qed
qed

lemma find_node_insert_behind:
  assumes "ucast (index ret) = i" and "ucast (index current) \<noteq> i"
    and "\<forall>n\<in>set rest. ucast (index n) \<noteq> i"
  shows "find_node i (insert_behind ret i current rest) = Some ret"
  using assms by (induction ret i current rest rule: insert_behind.induct) auto

lemma GetOrCreate_idem:
  assumes "unat i < 256" and "GetOrCreate fresh h start i True = (r, h', l)"
  shows "GetOrCreate fresh h' l i True = (r, h', l)"
proof (cases "find_node i start")
  case (Some n)
  with assms show ?thesis by (auto simp: GetOrCreate_def)
next
  case None
  then have nm: "\<forall>n\<in>set start. ucast (index n) \<noteq> i" by (simp add: find_node_None)
  let ?ret = "fresh\<lparr>addr := h, index := ucast i\<rparr>"
  have ri: "ucast (index ?ret) = i" using assms(1) by (simp add: ucast_eq_small)
  have "find_node i l = Some ?ret"
  proof (cases start)
    case Nil
    with None assms ri show ?thesis by (auto simp: GetOrCreate_def Let_def)
  next
    case (Cons s rest)
    show ?thesis
    proof (cases "i < ucast (index s)")
      case True
      with None Cons assms ri show ?thesis by (auto simp: GetOrCreate_def Let_def)
    next
      case False
      from nm Cons have "find_node i (insert_behind ?ret i s rest) = Some ?ret"
        by (intro find_node_insert_behind ri) auto
      with None Cons False assms(2) show ?thesis by (auto simp: GetOrCreate_def Let_def)
    qed
  qed
  moreover from None assms(2) have "r = Some h" by (auto simp: GetOrCreate_def Let_def)
  ultimately show ?thesis by (simp add: GetOrCreate_def)
qed

lemma insert_behind_order:
  "\<exists>k. insert_behind ret i current rest = take k (current # rest) @ ret # drop k (current # rest)"
proof (induction ret i current rest rule: insert_behind.induct)
  case (1 ret i current)
  have "[current, ret] = take 1 [current] @ ret # drop 1 [current]" by simp
  then show ?case unfolding insert_behind.simps by blast
next
  case (2 ret i current n ns)
  show ?case
  proof (cases "ucast (index n) < i")
    case True
    with 2 obtain k where "insert_behind ret i n ns = take k (n # ns) @ ret # drop k (n # ns)"
      by blast
    with True have "insert_behind ret i current (n # ns)
        = take (Suc k) (current # n # ns) @ ret # drop (Suc k) (current # n # ns)" by simp
    then show ?thesis by blast
  next
    case False
    then have "insert_behind ret i current (n # ns)
        = take 1 (current # n # ns) @ ret # drop 1 (current # n # ns)" by simp
    then show ?thesis by blast
  qed
qed

lemma GetOrCreate_order:
  assumes "GetOrCreate fresh h start i create = (r, h', l)"
  shows "l = start \<or> (\<exists>k. l = take k start @ fresh\<lparr>addr := h, index := ucast i\<rparr> # drop k start)"
proof (cases "find_node i start = None \<and> create")
  case False
  with assms show ?thesis by (auto simp: GetOrCreate_def split: option.splits)
next
  case True
  let ?ret = "fresh\<lparr>addr := h, index := ucast i\<rparr>"
  show ?thesis
  proof (cases start)
    case Nil
    with True assms show ?thesis by (auto simp: GetOrCreate_def Let_def)
  next
    case (Cons s rest)
    show ?thesis
    proof (cases "i < ucast (index s)")
      case lt: True
      have "?ret # start = take 0 start @ ?ret # drop 0 start" by simp
      moreover from True Cons lt assms have "l = ?ret # start" by (auto simp: GetOrCreate_def Let_def)
      ultimately show ?thesis by metis
    next
      case False
      with True Cons assms have "l = insert_behind ?ret i s rest"
        by (auto simp: GetOrCreate_def Let_def)
      with insert_behind_order [of ?ret i s rest] Cons show ?thesis by auto
    qed
  qed
qed

lemma find_node_store_at:
  assumes "\<And>n. index (f n) = index n"
  shows "find_node i (store_at p f ns) = map_option (\<lambda>n. if addr n = p then f n else n) (find_node i ns)"
  using assms by (induction ns) (auto simp: store_at_def)

lemma GetOrCreate_find:
  assumes "unat i < 256" and "GetOrCreate fresh h start i True = (r, h', l)"
  shows "\<exists>n. find_node i l = Some n \<and> r = Some (addr n)"
proof -
  from GetOrCreate_idem [OF assms] have "GetOrCreate fresh h' l i True = (r, h', l)" .
  moreover have "find_node i l \<noteq> None"
  proof
    assume "find_node i l = None"
    with \<open>GetOrCreate fresh h' l i True = (r, h', l)\<close> have "h' = Suc h'"
      by (auto simp: GetOrCreate_def Let_def)
    then show False by simp
  qed
  ultimately show ?thesis by (auto simp: GetOrCreate_def)
qed

lemma list_all_clear_spindle: "list_all (\<lambda>t. spindle t \<noteq> Some sp) (clear_spindle sp ts)"
  by (induction ts) (auto simp: clear_spindle_def)

lemma SetSpindleTool_spindle_side:
  fixes spindleIndex :: "8 word"
  assumes s: "0 \<le> sint spindleIndex"
  obtains r h l n where
    "GetOrCreate new_Spindle (heap om) (spindles om) (scast spindleIndex) True = (Some (addr n), h, l)"
    and "find_node (scast spindleIndex) l = Some n"
proof -
  obtain r h l where g: "GetOrCreate new_Spindle (heap om) (spindles om) (scast spindleIndex) True = (r, h, l)"
    by (cases "GetOrCreate new_Spindle (heap om) (spindles om) (scast spindleIndex) True") auto
  from GetOrCreate_find [OF unat_scast_nonneg [OF s] g]
  obtain n where "find_node (scast spindleIndex) l = Some n" "r = Some (addr n)" by blast
  with g that show ?thesis by blast
qed


lemma GetOrCreate_all_sorted:
  "(\<forall>j\<in>set js. unat j < 256) \<Longrightarrow> sorted_wrt (<) (map index start)
     \<Longrightarrow> sorted_wrt (<) (map index (snd (GetOrCreate_all fresh h start js)))"
proof (induction js arbitrary: h start)
  case Nil
  then show ?case by simp
next
  case (Cons j js)
  obtain r h' l where g: "GetOrCreate fresh h start j True = (r, h', l)"
    by (cases "GetOrCreate fresh h start j True") auto
  from Cons.prems have "unat j < 256" by simp
  from GetOrCreate_sorted [OF this Cons.prems(2) g] have "sorted_wrt (<) (map index l)" .
  with Cons.IH [of l h'] Cons.prems g show ?case by simp
qed

subsection \<open>Array end\<close>

lemma Remove_scan_interior:
  "pre \<noteq> [] \<Longrightarrow> \<forall>x\<in>set pre. ucast (index x) \<noteq> i \<Longrightarrow> ucast (index a) = i
     \<Longrightarrow> Remove_scan i True (pre @ a # post) = pre"
proof (induction pre)
  case Nil
  then show ?case by simp
next
  case (Cons s pre)
  show ?case
  proof (cases pre)
    case Nil
    with Cons.prems show ?thesis by simp
  next
    case (Cons n ns)
    with Cons.IH Cons.prems show ?thesis by simp
  qed
qed

lemma Remove_interior:
  assumes "pre \<noteq> []" and "\<forall>x\<in>set pre. ucast (index x) \<noteq> i" and "ucast (index a) = i"
  shows "Remove (pre @ a # post) i True = Inr pre"
proof -
  from assms(1) obtain s rest where p: "pre = s # rest" by (cases pre) auto
  with assms(2) have "ucast (index s) \<noteq> i" by simp
  with p have "Remove (pre @ a # post) i True = Inr (Remove_scan i True (pre @ a # post))"
    by (simp add: Remove_def)
  with Remove_scan_interior [OF assms] show ?thesis by simp
qed

lemma GetOrCreateTool_axes: "GetOrCreateTool om i c = (r, om') \<Longrightarrow> axes om' = axes om"
  by (auto simp: GetOrCreateTool_def split: prod.splits)

lemma ProcessArrayEnd_other_axes:
  assumes "\<not> (responseType = rcvOMKeyMove \<and> strcasecmp id' ''move:axes^'' = 0)"
    and "ProcessArrayEnd RemoveAxis responseType lastSpindle lastTool id' indices om = Inr om'"
  shows "axes om' = axes om"
  using assms
  by (auto simp: ProcessArrayEnd_def RemoveSpindle_def RemoveTool_def SetToolExtruder_def
      SetToolHeater_def dest: GetOrCreateTool_axes
      split: if_splits sum.splits prod.splits option.splits)

lemma strcmp_tools_files: "strcmp ''tools^'' ''files^'' \<noteq> 0"
  by simp

lemma strcasecmp_tools: "strcasecmp ''tools^'' ''tools^'' = 0"
  by (simp add: tolower_def)


text \<open>
  Claim C5.  When the tool list holds the indices 0, 1, 2, 3, 4 (in list order),
  \<open>RemoveTool(2, true)\<close> leaves exactly the first two nodes, with indices 0 and 1.
  For every list and every index that no node carries, \<open>Remove\<close> with
  \<open>allFollowing = false\<close> returns normally and leaves the list unchanged.
\<close>

theorem C5_ranged_removal:
  "(map index (tools om) = [0, 1, 2, 3, 4] \<longrightarrow>
      RemoveTool om 2 True = Inr (om\<lparr>tools := take 2 (tools om)\<rparr>)
      \<and> map index (take 2 (tools om)) = [0, 1])
   \<and> ((\<forall>n\<in>set start. ucast (index n) \<noteq> i) \<longrightarrow> Remove start i False = Inr start)"
proof (intro conjI impI)
  assume h: "map index (tools om) = [0, 1, 2, 3, 4]"
  show "RemoveTool om 2 True = Inr (om\<lparr>tools := take 2 (tools om)\<rparr>)"
    by (simp add: RemoveTool_def Remove_01234 [OF h])
  from h have "map index (take 2 (tools om)) = take 2 [0, 1, 2, 3, 4]"
    by (simp add: take_map [symmetric])
  then show "map index (take 2 (tools om)) = [0, 1]" by simp
next
  assume "\<forall>n\<in>set start. ucast (index n) \<noteq> i"
  then show "Remove start i False = Inr start" by (rule Remove_no_match)
qed

theorem C5_witness:
  "map index (tools (store_with [0, 1, 2, 3, 4])) = [0, 1, 2, 3, 4]
   \<and> RemoveTool (store_with [0, 1, 2, 3, 4]) 2 True
       = Inr ((store_with [0, 1, 2, 3, 4])\<lparr>tools := tools_with [0, 1]\<rparr>)
   \<and> list_all (\<lambda>n. (ucast (index n) :: 32 word) \<noteq> 2) (tools_with [0, 1, 3])
   \<and> Remove (tools_with [0, 1, 3]) 2 False = Inr (tools_with [0, 1, 3])"
proof -
  have h1: "map index (tools (store_with [0, 1, 2, 3, 4])) = [0, 1, 2, 3, 4]"
    by (simp add: store_with_def tools_with_def new_Tool_def)
  have h2: "\<forall>n\<in>set (tools_with [0, 1, 3]). (ucast (index n) :: 32 word) \<noteq> 2"
    by (simp add: tools_with_def new_Tool_def)
  have t: "take 2 (tools (store_with [0, 1, 2, 3, 4])) = tools_with [0, 1]"
    by (simp add: store_with_def tools_with_def)
  from C5_ranged_removal [of "store_with [0, 1, 2, 3, 4]" "tools_with [0, 1, 3]" 2] h1 h2 t
  show ?thesis by (simp add: list_all_iff)
qed


text \<open>
  Claim C6, as amended.  For an index below 256 (one that the byte member \<open>index\<close>
  of a node can hold), \<open>GetOrCreate\<close> with \<open>create = true\<close> is idempotent: a second
  call with the same index returns the same pointer and changes neither the list nor
  the heap.  A list that is strictly ascending by index stays so, also over any
  sequence of creating calls with such indices; creating 5, 1, 3 in an empty list gives
  the order 1, 3, 5.  For every index, the new list is the old one or the old one with
  the new node put in at one position: existing nodes keep their order.
\<close>

theorem C6_GetOrCreate_idempotent_sorted:
  assumes "unat i < 256" and "GetOrCreate fresh h start i True = (r, h', l)"
  shows "GetOrCreate fresh h' l i True = (r, h', l)
     \<and> (sorted_wrt (<) (map index start) \<longrightarrow> sorted_wrt (<) (map index l))
     \<and> (l = start \<or> (\<exists>k. l = take k start @ fresh\<lparr>addr := h, index := ucast i\<rparr> # drop k start))
     \<and> ((\<forall>j\<in>set js. unat j < 256) \<and> sorted_wrt (<) (map index start) \<longrightarrow>
           sorted_wrt (<) (map index (snd (GetOrCreate_all fresh h start js))))
     \<and> map index (snd (GetOrCreate_all new_Tool 0 [] [5, 1, 3])) = [1, 3, 5]"
proof (intro conjI impI)
  show "GetOrCreate fresh h' l i True = (r, h', l)"
    using assms by (rule GetOrCreate_idem)
  show "sorted_wrt (<) (map index l)" if "sorted_wrt (<) (map index start)"
    using assms(1) that assms(2) by (rule GetOrCreate_sorted)
  show "l = start \<or> (\<exists>k. l = take k start @ fresh\<lparr>addr := h, index := ucast i\<rparr> # drop k start)"
    using assms(2) by (rule GetOrCreate_order)
  show "sorted_wrt (<) (map index (snd (GetOrCreate_all fresh h start js)))"
    if "(\<forall>j\<in>set js. unat j < 256) \<and> sorted_wrt (<) (map index start)"
    using that by (simp add: GetOrCreate_all_sorted)
  show "map index (snd (GetOrCreate_all new_Tool 0 [] [5, 1, 3])) = [1, 3, 5]"
    by (simp add: GetOrCreate_def Let_def new_Tool_def)
qed

theorem C6_witness:
  "unat (3 :: 32 word) < 256
   \<and> GetOrCreate new_Tool 2 (tools_with [0, 1]) 3 True
       = (Some 2, 3, tools_with [0, 1] @ [new_Tool\<lparr>addr := 2, index := 3\<rparr>])
   \<and> GetOrCreate new_Tool 3 (tools_with [0, 1] @ [new_Tool\<lparr>addr := 2, index := 3\<rparr>]) 3 True
       = (Some 2, 3, tools_with [0, 1] @ [new_Tool\<lparr>addr := 2, index := 3\<rparr>])
   \<and> sorted_wrt (<) (map index (tools_with [0, 1]))
   \<and> sorted_wrt (<) (map index (tools_with [0, 1] @ [new_Tool\<lparr>addr := 2, index := 3\<rparr>]))
   \<and> list_all (\<lambda>j. unat j < 256) [7 :: 32 word]
   \<and> sorted_wrt (<) (map index (snd (GetOrCreate_all new_Tool 2 (tools_with [0, 1]) [7])))"
proof -
  have h1: "unat (3 :: 32 word) < 256" by simp
  have h2: "GetOrCreate new_Tool 2 (tools_with [0, 1]) 3 True
       = (Some 2, 3, tools_with [0, 1] @ [new_Tool\<lparr>addr := 2, index := 3\<rparr>])"
    by (simp add: GetOrCreate_def tools_with_def new_Tool_def Let_def)
  have h3: "sorted_wrt (<) (map index (tools_with [0, 1]))"
    by (simp add: tools_with_def new_Tool_def)
  have h4: "\<forall>j\<in>set [7 :: 32 word]. unat j < 256" by simp
  from C6_GetOrCreate_idempotent_sorted [OF h1 h2, of "[7]"] h1 h2 h3 h4
  show ?thesis by (simp add: list_all_iff)
qed

text \<open>
  The claim as stated fails for an index that does not fit the byte: the second of two
  calls \<open>GetOrCreate(tools, 300, true)\<close> on an empty list creates a second node (both
  with index 44) and returns a different pointer.
\<close>

theorem C6_counterexample:
  "GetOrCreate_twice new_Tool 0 [] 300
     = ((Some 0, 1, [new_Tool\<lparr>addr := 0, index := 44\<rparr>]),
        (Some 1, 2, [new_Tool\<lparr>addr := 0, index := 44\<rparr>, new_Tool\<lparr>addr := 1, index := 44\<rparr>]))"
  by (simp add: GetOrCreate_twice_def GetOrCreate_def Let_def new_Tool_def)

text \<open>
  Claim C8, as amended.  For a spindle index that is not negative and a tool index
  that is either \<open>-1\<close> or not negative, \<open>SetSpindleTool\<close> returns normally; afterwards
  the spindle with that index refers to \<open>toolIndex\<close>; when \<open>toolIndex\<close> is \<open>-1\<close> no
  tool points at the spindle any more; otherwise the tool with that index points at the
  spindle.  (Back references of other tools are cleared only by the \<open>-1\<close> call.)
\<close>

theorem C8_SetSpindleTool_cross_references:
  fixes spindleIndex toolIndex :: "8 word"
  assumes s: "0 \<le> sint spindleIndex" and t: "toolIndex = - 1 \<or> 0 \<le> sint toolIndex"
  shows "\<exists>om' sp. SetSpindleTool om spindleIndex toolIndex = Inr om'
           \<and> find_node (scast spindleIndex) (spindles om') = Some sp
           \<and> tool sp = toolIndex
           \<and> (toolIndex = - 1 \<longrightarrow> list_all (\<lambda>x. spindle x \<noteq> Some (addr sp)) (tools om'))
           \<and> (toolIndex \<noteq> - 1 \<longrightarrow>
                (\<exists>x. find_node (scast toolIndex) (tools om') = Some x
                      \<and> spindle x = Some (addr sp)))"
proof -
  obtain h1 l1 n1 where
    g1: "GetOrCreate new_Spindle (heap om) (spindles om) (scast spindleIndex) True = (Some (addr n1), h1, l1)"
    and f1: "find_node (scast spindleIndex) l1 = Some n1"
    using SetSpindleTool_spindle_side [OF s, of om] by metis
  let ?sp = "addr n1"
  let ?l1' = "store_at ?sp (\<lambda>s. s\<lparr>tool := toolIndex\<rparr>) l1"
  let ?n1' = "n1\<lparr>tool := toolIndex\<rparr>"
  have f1': "find_node (scast spindleIndex) ?l1' = Some ?n1'"
    using f1 by (simp add: find_node_store_at)
  let ?om2 = "om\<lparr>spindles := ?l1', heap := h1\<rparr>"
  show ?thesis
  proof (cases "toolIndex = - 1")
    case True
    have "SetSpindleTool om spindleIndex toolIndex
            = Inr (?om2\<lparr>tools := clear_spindle ?sp (tools om)\<rparr>)"
      using g1 True by (simp add: SetSpindleTool_def GetOrCreateSpindle_def Let_def)
    moreover have "list_all (\<lambda>x. spindle x \<noteq> Some (addr ?n1')) (clear_spindle ?sp (tools om))"
      using list_all_clear_spindle [of ?sp "tools om"] by simp
    ultimately show ?thesis using f1' True by auto
  next
    case False
    with t have tn: "0 \<le> sint toolIndex" by simp
    obtain r2 h2 l2 where
      g2: "GetOrCreate new_Tool h1 (tools om) (scast toolIndex) True = (r2, h2, l2)"
      by (cases "GetOrCreate new_Tool h1 (tools om) (scast toolIndex) True") auto
    from GetOrCreate_find [OF unat_scast_nonneg [OF tn] g2]
    obtain n2 where f2: "find_node (scast toolIndex) l2 = Some n2" and r2: "r2 = Some (addr n2)"
      by blast
    let ?l2' = "store_at (addr n2) (\<lambda>x. x\<lparr>spindle := Some ?sp\<rparr>) l2"
    have f2': "find_node (scast toolIndex) ?l2' = Some (n2\<lparr>spindle := Some ?sp\<rparr>)"
      using f2 by (simp add: find_node_store_at)
    have "SetSpindleTool om spindleIndex toolIndex = Inr (?om2\<lparr>heap := h2, tools := ?l2'\<rparr>)"
      using g1 g2 r2 False
      by (simp add: SetSpindleTool_def GetOrCreateSpindle_def GetOrCreateTool_def Let_def)
    then show ?thesis using f1' f2' False by auto
  qed
qed


theorem C8_witness:
  "0 \<le> sint (0 :: 8 word) \<and> ((1 :: 8 word) = - 1 \<or> 0 \<le> sint (1 :: 8 word))
   \<and> (\<exists>om' sp. SetSpindleTool empty_store 0 1 = Inr om'
          \<and> find_node (scast (0 :: 8 word)) (spindles om') = Some sp \<and> tool sp = 1
          \<and> (\<exists>x. find_node (scast (1 :: 8 word)) (tools om') = Some x
                 \<and> spindle x = Some (addr sp)))"
  using C8_SetSpindleTool_cross_references [of 0 1 empty_store] by simp

text \<open>
  The claim as stated fails when a spindle is given a new tool without an intervening
  \<open>-1\<close>: after \<open>SetSpindleTool(0, 1)\<close> and \<open>SetSpindleTool(0, 2)\<close> spindle 0 refers to
  tool 2, and tool 1 still points at spindle 0.
\<close>

theorem C8_counterexample:
  "SetSpindleTool_all empty_store [(0, 1), (0, 2)]
     = Inr \<lparr>tools = [new_Tool\<lparr>addr := 1, index := 1, spindle := Some 0\<rparr>,
                     new_Tool\<lparr>addr := 2, index := 2, spindle := Some 0\<rparr>],
            spindles = [new_Spindle\<lparr>addr := 0, index := 0, tool := 2\<rparr>],
            axes = [], heap = 3\<rparr>
   \<and> \<not> xref_consistent (projr (SetSpindleTool_all empty_store [(0, 1), (0, 2)])) 0"
  by (simp add: SetSpindleTool_def GetOrCreateSpindle_def GetOrCreateTool_def GetOrCreate_def
      store_at_def empty_store_def new_Tool_def new_Spindle_def xref_consistent_def
      refers_to_def Let_def)

text \<open>
  Claim C10.  For every list and every index \<open>i\<close> that no node carries, \<open>Remove\<close> with
  \<open>allFollowing = true\<close> returns normally and leaves the list unchanged, whatever
  larger indices it holds.  So the trim at the end of the \<open>tools^\<close> array of a tools
  reply, \<open>RemoveTool(lastTool + 1, true)\<close>, leaves the store unchanged when no tool has
  the index \<open>lastTool + 1\<close>.
\<close>

theorem C10_no_match_no_trim:
  "((\<forall>n\<in>set start. ucast (index n) \<noteq> i) \<longrightarrow> Remove start i True = Inr start)
   \<and> ((\<forall>t\<in>set (tools om). (ucast (index t) :: 32 word) \<noteq> scast lastTool + 1) \<longrightarrow>
        ProcessArrayEnd RemoveAxis rcvOMKeyTools lastSpindle lastTool ''tools^'' indices om = Inr om)"
proof (intro conjI impI)
  assume "\<forall>n\<in>set start. ucast (index n) \<noteq> i"
  then show "Remove start i True = Inr start" by (rule Remove_no_match)
next
  assume "\<forall>t\<in>set (tools om). (ucast (index t) :: 32 word) \<noteq> scast lastTool + 1"
  then have "Remove (tools om) (scast lastTool + 1) True = Inr (tools om)"
    by (rule Remove_no_match)
  then show "ProcessArrayEnd RemoveAxis rcvOMKeyTools lastSpindle lastTool ''tools^'' indices om = Inr om"
    using strcmp_tools_files strcasecmp_tools
    by (simp add: ProcessArrayEnd_def RemoveTool_def del: strcmp.simps strcasecmp.simps)
qed

text \<open>
  A store with tools 0, 1, 5, 6 after a tools reply that reported tools 0 and 1: the
  stale tools 5 and 6 stay.
\<close>

theorem C10_witness:
  "list_all (\<lambda>n. (ucast (index n) :: 32 word) \<noteq> 3) (tools_with [0, 1, 5, 6])
   \<and> Remove (tools_with [0, 1, 5, 6]) 3 True = Inr (tools_with [0, 1, 5, 6])
   \<and> list_all (\<lambda>n. (ucast (index n) :: 32 word) \<noteq> scast (1 :: 8 word) + 1)
        (tools (store_with [0, 1, 5, 6]))
   \<and> ProcessArrayEnd (\<lambda>i allFollowing. Inr) rcvOMKeyTools 0 1 ''tools^''
       (indices_of 2 0) (store_with [0, 1, 5, 6])
       = Inr (store_with [0, 1, 5, 6])"
proof -
  have h1: "\<forall>n\<in>set (tools_with [0, 1, 5, 6]). (ucast (index n) :: 32 word) \<noteq> 3"
    by (simp add: tools_with_def new_Tool_def)
  have h2: "\<forall>n\<in>set (tools (store_with [0, 1, 5, 6])).
              (ucast (index n) :: 32 word) \<noteq> scast (1 :: 8 word) + 1"
    by (simp add: store_with_def tools_with_def new_Tool_def)
  from C10_no_match_no_trim [where start = "tools_with [0, 1, 5, 6]" and i = 3
      and om = "store_with [0, 1, 5, 6]" and lastTool = 1 and lastSpindle = 0
      and indices = "indices_of 2 0" and RemoveAxis = "\<lambda>i allFollowing. Inr"] h1 h2
  show ?thesis by (simp add: list_all_iff)
qed

section \<open>Properties of the message session\<close>

lemmas Got_defs = GotMode_def GotSeq_def GotTimeout_def GotTitle_def GotText_def GotControls_def

lemma calls_call [simp]: "calls (call c s) = calls s @ [c]"
  by (simp add: call_def)

lemma currentAlert_call [simp]: "currentAlert (call c s) = currentAlert s"
  by (simp add: call_def)

lemma lastAlertSeq_call [simp]: "lastAlertSeq (call c s) = lastAlertSeq s"
  by (simp add: call_def)

lemma seqs_call [simp]: "seqs (call c s) = seqs s"
  by (simp add: call_def)

lemma remoteUpTime_call [simp]: "remoteUpTime (call c s) = remoteUpTime s"
  by (simp add: call_def)

lemma resetSeqs_simps [simp]:
  "calls (resetSeqs s) = calls s @ [SetStatus None]"
  "currentAlert (resetSeqs s) = currentAlert s"
  "lastAlertSeq (resetSeqs s) = lastAlertSeq s"
  "seqs (resetSeqs s) = resetSeqsFields (seqs s)"
  "remoteUpTime (resetSeqs s) = remoteUpTime s"
  by (simp_all add: resetSeqs_def Reconnect_def call_def)

lemma stage_simps [simp]:
  "currentAlert (stage f s) = f (currentAlert s)"
  "calls (stage f s) = calls s"
  "lastAlertSeq (stage f s) = lastAlertSeq s"
  "seqs (stage f s) = seqs s"
  by (simp_all add: stage_def)

subsection \<open>The branches of \<open>ProcessReceivedValue\<close>\<close>

lemma PRV_Key:
  "ProcessReceivedValue L rcvKey d s
     = s\<lparr>currentResponseType := bsearch keyResponseTypeTable (length keyResponseTypeTable) d\<rparr>"
  unfolding ProcessReceivedValue_def by simp

lemma is_LiveSeqs_not_Key: "is_LiveSeqs r \<Longrightarrow> r \<noteq> rcvKey"
  by (auto simp: is_LiveSeqs_def)

lemma PRV_LiveSeqs:
  "is_LiveSeqs r \<Longrightarrow> ProcessReceivedValue L r d s
     = (if fst (GetInteger L d 0) then s\<lparr>seqs := UpdateSeqs r (snd (GetInteger L d 0)) (seqs s)\<rparr>
        else s)"
  unfolding ProcessReceivedValue_def
  by (cases "GetInteger L d 0") (simp add: is_LiveSeqs_not_Key)

lemma PRV_Status:
  "ProcessReceivedValue L rcvLiveStateStatus d s = call (SetStatus (Some d)) s"
  unfolding ProcessReceivedValue_def by (simp add: is_LiveSeqs_def)

lemma PRV_Uptime:
  "ProcessReceivedValue L rcvLiveStateUptime d s
     = (if fst (GetUnsignedInteger L d 0) then
          (if snd (GetUnsignedInteger L d 0) < remoteUpTime s
           then call UI_ResetBedAndChamber (resetSeqs s)
           else s)\<lparr>remoteUpTime := snd (GetUnsignedInteger L d 0)\<rparr>
        else s)"
  unfolding ProcessReceivedValue_def
  by (cases "GetUnsignedInteger L d 0") (simp add: is_LiveSeqs_def)

lemma PRV_MessageBox:
  "ProcessReceivedValue L rcvStateMessageBox d s
     = (if empty_string d then call UI_ClearAlert s else s)"
  unfolding ProcessReceivedValue_def by (simp add: is_LiveSeqs_def)

lemma PRV_Controls:
  "ProcessReceivedValue L rcvStateMessageBoxAxisControls d s
     = stage (\<lambda>a. a\<lparr>controls := snd (GetUnsignedInteger L d (controls (currentAlert s))),
                   flags := (if fst (GetUnsignedInteger L d (controls (currentAlert s)))
                             then flags a OR GotControls else flags a)\<rparr>) s"
  unfolding ProcessReceivedValue_def
  by (cases "GetUnsignedInteger L d (controls (currentAlert s))") (simp add: is_LiveSeqs_def)

lemma PRV_Message:
  "ProcessReceivedValue L rcvStateMessageBoxMessage d s
     = stage (\<lambda>a. a\<lparr>text' := take (alertTextLength L) d, flags := flags a OR GotText\<rparr>) s"
  unfolding ProcessReceivedValue_def by (simp add: is_LiveSeqs_def)

lemma PRV_Mode:
  "ProcessReceivedValue L rcvStateMessageBoxMode d s
     = stage (\<lambda>a. a\<lparr>mode := snd (GetInteger L d (mode (currentAlert s))),
                   flags := (if fst (GetInteger L d (mode (currentAlert s)))
                             then flags a OR GotMode else flags a)\<rparr>) s"
  unfolding ProcessReceivedValue_def
  by (cases "GetInteger L d (mode (currentAlert s))") (simp add: is_LiveSeqs_def)

lemma PRV_Seq:
  "ProcessReceivedValue L rcvStateMessageBoxSeq d s
     = stage (\<lambda>a. a\<lparr>seq := snd (GetUnsignedInteger L d (seq (currentAlert s))),
                   flags := (if fst (GetUnsignedInteger L d (seq (currentAlert s)))
                             then flags a OR GotSeq else flags a)\<rparr>) s"
  unfolding ProcessReceivedValue_def
  by (cases "GetUnsignedInteger L d (seq (currentAlert s))") (simp add: is_LiveSeqs_def)

lemma PRV_Timeout:
  "ProcessReceivedValue L rcvStateMessageBoxTimeout d s
     = stage (\<lambda>a. a\<lparr>timeout := snd (GetFloat L d (timeout (currentAlert s))),
                   flags := (if fst (GetFloat L d (timeout (currentAlert s)))
                             then flags a OR GotTimeout else flags a)\<rparr>) s"
  unfolding ProcessReceivedValue_def
  by (cases "GetFloat L d (timeout (currentAlert s))") (simp add: is_LiveSeqs_def)

lemma PRV_Title:
  "ProcessReceivedValue L rcvStateMessageBoxTitle d s
     = stage (\<lambda>a. a\<lparr>title := take (titleLength L) d, flags := flags a OR GotTitle\<rparr>) s"
  unfolding ProcessReceivedValue_def by (simp add: is_LiveSeqs_def)

lemma PRV_PushMessage:
  "ProcessReceivedValue L rcvPushMessage d s
     = (if empty_string d then call UI_ClearAlert s else call (UI_ProcessSimpleAlert d) s)"
  unfolding ProcessReceivedValue_def by (simp add: is_LiveSeqs_def)

lemma PRV_PushSeq:
  "ProcessReceivedValue L rcvPushSeq d s
     = s\<lparr>newMessageSeq := snd (GetUnsignedInteger L d (newMessageSeq s))\<rparr>"
  unfolding ProcessReceivedValue_def by (simp add: is_LiveSeqs_def)

lemma PRV_Other:
  assumes "r \<noteq> rcvKey" "\<not> is_LiveSeqs r" "r \<noteq> rcvLiveStateStatus" "r \<noteq> rcvLiveStateUptime"
    "r \<noteq> rcvStateMessageBox" "r \<noteq> rcvStateMessageBoxAxisControls"
    "r \<noteq> rcvStateMessageBoxMessage" "r \<noteq> rcvStateMessageBoxMode" "r \<noteq> rcvStateMessageBoxSeq"
    "r \<noteq> rcvStateMessageBoxTimeout" "r \<noteq> rcvStateMessageBoxTitle" "r \<noteq> rcvPushMessage"
    "r \<noteq> rcvPushSeq"
  shows "ProcessReceivedValue L r d s = s"
  unfolding ProcessReceivedValue_def using assms by simp

lemma PRV_PushMessage':
  "ProcessReceivedValue L (Enumerator (Suc 0)) d s
     = (if empty_string d then call UI_ClearAlert s else call (UI_ProcessSimpleAlert d) s)"
  using PRV_PushMessage [of L d s] by simp

lemmas PRV_branches = PRV_Key PRV_Status PRV_Uptime PRV_MessageBox PRV_Controls PRV_Message
  PRV_Mode PRV_Seq PRV_Timeout PRV_Title PRV_PushMessage PRV_PushMessage' PRV_PushSeq

lemma PRV_cases [case_names Key LiveSeqs Status Uptime MessageBox Controls Message Mode Seq
    Timeout Title PushMessage PushSeq Other]:
  obtains "r = rcvKey" | "is_LiveSeqs r" | "r = rcvLiveStateStatus" | "r = rcvLiveStateUptime"
  | "r = rcvStateMessageBox" | "r = rcvStateMessageBoxAxisControls"
  | "r = rcvStateMessageBoxMessage" | "r = rcvStateMessageBoxMode" | "r = rcvStateMessageBoxSeq"
  | "r = rcvStateMessageBoxTimeout" | "r = rcvStateMessageBoxTitle" | "r = rcvPushMessage"
  | "r = rcvPushSeq"
  | "r \<noteq> rcvKey" "\<not> is_LiveSeqs r" "r \<noteq> rcvLiveStateStatus" "r \<noteq> rcvLiveStateUptime"
    "r \<noteq> rcvStateMessageBox" "r \<noteq> rcvStateMessageBoxAxisControls"
    "r \<noteq> rcvStateMessageBoxMessage" "r \<noteq> rcvStateMessageBoxMode" "r \<noteq> rcvStateMessageBoxSeq"
    "r \<noteq> rcvStateMessageBoxTimeout" "r \<noteq> rcvStateMessageBoxTitle" "r \<noteq> rcvPushMessage"
    "r \<noteq> rcvPushSeq"
  by blast

subsection \<open>Alerts are handed over at the end of a message only\<close>

lemma ProcessReceivedValue_alerts:
  "filter is_alert (calls (ProcessReceivedValue L r d s)) = filter is_alert (calls s)"
  by (cases r rule: PRV_cases) (simp_all add: PRV_branches PRV_LiveSeqs PRV_Other)

lemma ProcessReceivedValue_lastAlertSeq:
  "lastAlertSeq (ProcessReceivedValue L r d s) = lastAlertSeq s"
  by (cases r rule: PRV_cases) (simp_all add: PRV_branches PRV_LiveSeqs PRV_Other)

lemma foldl_ProcessReceivedValue_alerts:
  "filter is_alert (calls (foldl (\<lambda>s t. ProcessReceivedValue L (fst t) (snd t) s) s msg))
     = filter is_alert (calls s)"
  by (induction msg arbitrary: s) (simp_all add: ProcessReceivedValue_alerts)

lemma foldl_ProcessReceivedValue_lastAlertSeq:
  "lastAlertSeq (foldl (\<lambda>s t. ProcessReceivedValue L (fst t) (snd t) s) s msg) = lastAlertSeq s"
  by (induction msg arbitrary: s) (simp_all add: ProcessReceivedValue_lastAlertSeq)

lemma staged_alerts: "alerts_delivered (staged L msg s) = alerts_delivered s"
  by (simp add: staged_def alerts_delivered_def foldl_ProcessReceivedValue_alerts
      StartReceivedMessage_def)

lemma staged_lastAlertSeq: "lastAlertSeq (staged L msg s) = lastAlertSeq s"
  by (simp add: staged_def foldl_ProcessReceivedValue_lastAlertSeq StartReceivedMessage_def)

lemma EndReceivedMessage_response_simps [simp]:
  "currentAlert (EndReceivedMessage_response now s) = currentAlert s"
  "lastAlertSeq (EndReceivedMessage_response now s) = lastAlertSeq s"
  "calls (EndReceivedMessage_response now s) = calls s"
  by (simp_all add: EndReceivedMessage_response_def)

lemma EndReceivedMessage_log_simps [simp]:
  "currentAlert (EndReceivedMessage_log s) = currentAlert s"
  "lastAlertSeq (EndReceivedMessage_log s) = lastAlertSeq s"
  "filter is_alert (calls (EndReceivedMessage_log s)) = filter is_alert (calls s)"
  by (simp_all add: EndReceivedMessage_log_def)

lemma EndReceivedMessage_alert_alerts:
  "length (filter is_alert (calls (EndReceivedMessage_alert s)))
     = (if delivers s then length (filter is_alert (calls s)) + 1
        else length (filter is_alert (calls s)))"
  by (simp add: EndReceivedMessage_alert_def delivers_def linorder_not_less)

lemma EndReceivedMessage_alert_lastAlertSeq:
  "lastAlertSeq (EndReceivedMessage_alert s)
     = (if delivers s then seq (currentAlert s) else lastAlertSeq s)"
  by (simp add: EndReceivedMessage_alert_def delivers_def linorder_not_less)

lemma delivers_End:
  "delivers (EndReceivedMessage_log (EndReceivedMessage_response now s)) = delivers s"
  by (simp add: delivers_def)

lemma EndReceivedMessage_alerts:
  "alerts_delivered (EndReceivedMessage now s)
     = (if delivers s then alerts_delivered s + 1 else alerts_delivered s)"
  by (simp add: EndReceivedMessage_def alerts_delivered_def EndReceivedMessage_alert_alerts
      delivers_End)

lemma EndReceivedMessage_lastAlertSeq:
  "lastAlertSeq (EndReceivedMessage now s)
     = (if delivers s then seq (currentAlert s) else lastAlertSeq s)"
  by (simp add: EndReceivedMessage_def EndReceivedMessage_alert_lastAlertSeq delivers_End)

lemma GotAll_GotMode: "GotAll AND GotMode \<noteq> 0"
  by (simp add: GotAll_def Got_defs)

subsection \<open>A message that lacks a composite field\<close>

lemma flag_kept:
  fixes f b c :: "8 word"
  assumes "c AND b = 0" and "f AND b = 0"
  shows "(f OR c) AND b = 0"
  using assms by (simp add: word_ao_dist)

lemma composite_fields_cases:
  assumes "(c, b) \<in> set composite_fields"
  shows "(c = rcvStateMessageBoxMessage \<and> b = GotText)
       \<or> (c = rcvStateMessageBoxTitle \<and> b = GotTitle)
       \<or> (c = rcvStateMessageBoxMode \<and> b = GotMode)
       \<or> (c = rcvStateMessageBoxSeq \<and> b = GotSeq)
       \<or> (c = rcvStateMessageBoxTimeout \<and> b = GotTimeout)
       \<or> (c = rcvStateMessageBoxAxisControls \<and> b = GotControls)"
  using assms by (auto simp: composite_fields_def)

lemma Got_disjoint:
  "GotText AND GotTitle = 0" "GotText AND GotMode = 0" "GotText AND GotSeq = 0"
  "GotText AND GotTimeout = 0" "GotText AND GotControls = 0"
  "GotTitle AND GotText = 0" "GotTitle AND GotMode = 0" "GotTitle AND GotSeq = 0"
  "GotTitle AND GotTimeout = 0" "GotTitle AND GotControls = 0"
  "GotMode AND GotText = 0" "GotMode AND GotTitle = 0" "GotMode AND GotSeq = 0"
  "GotMode AND GotTimeout = 0" "GotMode AND GotControls = 0"
  "GotSeq AND GotText = 0" "GotSeq AND GotTitle = 0" "GotSeq AND GotMode = 0"
  "GotSeq AND GotTimeout = 0" "GotSeq AND GotControls = 0"
  "GotTimeout AND GotText = 0" "GotTimeout AND GotTitle = 0" "GotTimeout AND GotMode = 0"
  "GotTimeout AND GotSeq = 0" "GotTimeout AND GotControls = 0"
  "GotControls AND GotText = 0" "GotControls AND GotTitle = 0" "GotControls AND GotMode = 0"
  "GotControls AND GotSeq = 0" "GotControls AND GotTimeout = 0"
  by (simp_all add: Got_defs)

lemma ProcessReceivedValue_flag_clear:
  assumes "(c, b) \<in> set composite_fields" and "r \<noteq> c"
    and "flags (currentAlert s) AND b = 0"
  shows "flags (currentAlert (ProcessReceivedValue L r d s)) AND b = 0"
proof (cases r rule: PRV_cases)
  case LiveSeqs
  with assms(3) show ?thesis by (simp add: PRV_LiveSeqs)
next
  case Controls
  with assms(2) composite_fields_cases [OF assms(1)] have "GotControls AND b = 0"
    by (auto simp: Got_disjoint)
  with assms(3) Controls show ?thesis by (simp add: PRV_branches flag_kept)
next
  case Message
  with assms(2) composite_fields_cases [OF assms(1)] have "GotText AND b = 0"
    by (auto simp: Got_disjoint)
  with assms(3) Message show ?thesis by (simp add: PRV_branches flag_kept)
next
  case Mode
  with assms(2) composite_fields_cases [OF assms(1)] have "GotMode AND b = 0"
    by (auto simp: Got_disjoint)
  with assms(3) Mode show ?thesis by (simp add: PRV_branches flag_kept)
next
  case Seq
  with assms(2) composite_fields_cases [OF assms(1)] have "GotSeq AND b = 0"
    by (auto simp: Got_disjoint)
  with assms(3) Seq show ?thesis by (simp add: PRV_branches flag_kept)
next
  case Timeout
  with assms(2) composite_fields_cases [OF assms(1)] have "GotTimeout AND b = 0"
    by (auto simp: Got_disjoint)
  with assms(3) Timeout show ?thesis by (simp add: PRV_branches flag_kept)
next
  case Title
  with assms(2) composite_fields_cases [OF assms(1)] have "GotTitle AND b = 0"
    by (auto simp: Got_disjoint)
  with assms(3) Title show ?thesis by (simp add: PRV_branches flag_kept)
qed (use assms(3) in \<open>simp_all add: PRV_branches PRV_Other\<close>)

lemma foldl_flag_clear:
  assumes "(c, b) \<in> set composite_fields" and "\<forall>t\<in>set msg. fst t \<noteq> c"
    and "flags (currentAlert s) AND b = 0"
  shows "flags (currentAlert (foldl (\<lambda>s t. ProcessReceivedValue L (fst t) (snd t) s) s msg)) AND b = 0"
  using assms(2,3)
proof (induction msg arbitrary: s)
  case Nil
  then show ?case by simp
next
  case (Cons t msg)
  from Cons.prems have "fst t \<noteq> c" by simp
  from ProcessReceivedValue_flag_clear [OF assms(1) this Cons.prems(2)]
  have "flags (currentAlert (ProcessReceivedValue L (fst t) (snd t) s)) AND b = 0" .
  with Cons.IH Cons.prems(1) show ?case by simp
qed

lemma GotAll_has:
  assumes "(c, b) \<in> set composite_fields"
  shows "GotAll AND b \<noteq> 0"
  using composite_fields_cases [OF assms] by (auto simp: GotAll_def Got_defs)

lemma missing_field_not_complete:
  assumes "(c, b) \<in> set composite_fields" and "\<forall>t\<in>set msg. fst t \<noteq> c"
  shows "flags (currentAlert (staged L msg s)) \<noteq> GotAll"
proof -
  have "flags (currentAlert (staged L msg s)) AND b = 0"
    unfolding staged_def
    by (rule foldl_flag_clear [OF assms]) (simp add: StartReceivedMessage_def)
  with GotAll_has [OF assms(1)] show ?thesis by auto
qed

lemma missing_field_no_alert:
  assumes "(c, b) \<in> set composite_fields" and "\<forall>t\<in>set msg. fst t \<noteq> c"
  shows "alerts_delivered (ReceiveMessage L now msg s) = alerts_delivered s"
  using missing_field_not_complete [OF assms, of L s]
  by (simp add: ReceiveMessage_def EndReceivedMessage_alerts staged_alerts delivers_def)

subsection \<open>The outcome of a message does not depend on what was staged before\<close>

lemma flag_other:
  fixes f b c :: "8 word"
  assumes "c AND b = 0"
  shows "(f OR c) AND b = f AND b"
  using assms by (simp add: word_ao_dist)

lemmas flag_others = Got_disjoint [THEN flag_other]

lemma flag_self:
  fixes f b :: "8 word"
  shows "(f OR b) AND b = b"
  by (simp add: word_ao_dist word_bw_lcs word_ao_absorbs)

lemma Got_nonzero:
  "GotMode \<noteq> 0" "GotSeq \<noteq> 0" "GotTimeout \<noteq> 0" "GotTitle \<noteq> 0" "GotText \<noteq> 0"
  "GotControls \<noteq> 0"
  by (simp_all add: Got_defs)

lemma GetUnsignedInteger_indep:
  "fst (GetUnsignedInteger L d x) = fst (GetUnsignedInteger L d y)"
  "empty_string d \<Longrightarrow> snd (GetUnsignedInteger L d x) = x"
  "\<not> empty_string d \<Longrightarrow> snd (GetUnsignedInteger L d x) = snd (GetUnsignedInteger L d y)"
  by (simp_all add: GetUnsignedInteger_def)

lemma GetInteger_indep:
  "fst (GetInteger L d x) = fst (GetInteger L d y)"
  "empty_string d \<Longrightarrow> snd (GetInteger L d x) = x"
  "\<not> empty_string d \<Longrightarrow> snd (GetInteger L d x) = snd (GetInteger L d y)"
  by (simp_all add: GetInteger_def)

lemma GetFloat_indep:
  "fst (GetFloat L d x) = fst (GetFloat L d y)"
  "empty_string d \<Longrightarrow> snd (GetFloat L d x) = x"
  "\<not> empty_string d \<Longrightarrow> snd (GetFloat L d x) = snd (GetFloat L d y)"
  by (simp_all add: GetFloat_def)

lemma agree_controls:
  assumes "alert_agree a b"
  shows "alert_agree
     (a\<lparr>controls := snd (GetUnsignedInteger L d (controls a)),
        flags := (if fst (GetUnsignedInteger L d (controls a)) then flags a OR GotControls else flags a)\<rparr>)
     (b\<lparr>controls := snd (GetUnsignedInteger L d (controls b)),
        flags := (if fst (GetUnsignedInteger L d (controls b)) then flags b OR GotControls else flags b)\<rparr>)"
proof (cases "empty_string d")
  case True
  with assms show ?thesis by (auto simp: alert_agree_def GetUnsignedInteger_def)
next
  case False
  with assms show ?thesis
    by (auto simp: alert_agree_def GetUnsignedInteger_def flag_others flag_self Got_nonzero)
qed

lemma agree_seq:
  assumes "alert_agree a b"
  shows "alert_agree
     (a\<lparr>seq := snd (GetUnsignedInteger L d (seq a)),
        flags := (if fst (GetUnsignedInteger L d (seq a)) then flags a OR GotSeq else flags a)\<rparr>)
     (b\<lparr>seq := snd (GetUnsignedInteger L d (seq b)),
        flags := (if fst (GetUnsignedInteger L d (seq b)) then flags b OR GotSeq else flags b)\<rparr>)"
proof (cases "empty_string d")
  case True
  with assms show ?thesis by (auto simp: alert_agree_def GetUnsignedInteger_def)
next
  case False
  with assms show ?thesis
    by (auto simp: alert_agree_def GetUnsignedInteger_def flag_others flag_self Got_nonzero)
qed

lemma agree_mode:
  assumes "alert_agree a b"
  shows "alert_agree
     (a\<lparr>mode := snd (GetInteger L d (mode a)),
        flags := (if fst (GetInteger L d (mode a)) then flags a OR GotMode else flags a)\<rparr>)
     (b\<lparr>mode := snd (GetInteger L d (mode b)),
        flags := (if fst (GetInteger L d (mode b)) then flags b OR GotMode else flags b)\<rparr>)"
proof (cases "empty_string d")
  case True
  with assms show ?thesis by (auto simp: alert_agree_def GetInteger_def)
next
  case False
  with assms show ?thesis
    by (auto simp: alert_agree_def GetInteger_def flag_others flag_self Got_nonzero)
qed

lemma agree_timeout:
  assumes "alert_agree a b"
  shows "alert_agree
     (a\<lparr>timeout := snd (GetFloat L d (timeout a)),
        flags := (if fst (GetFloat L d (timeout a)) then flags a OR GotTimeout else flags a)\<rparr>)
     (b\<lparr>timeout := snd (GetFloat L d (timeout b)),
        flags := (if fst (GetFloat L d (timeout b)) then flags b OR GotTimeout else flags b)\<rparr>)"
proof (cases "empty_string d")
  case True
  with assms show ?thesis by (auto simp: alert_agree_def GetFloat_def)
next
  case False
  with assms show ?thesis
    by (auto simp: alert_agree_def GetFloat_def flag_others flag_self Got_nonzero)
qed

lemma agree_text:
  assumes "alert_agree a b"
  shows "alert_agree (a\<lparr>text' := x, flags := flags a OR GotText\<rparr>)
     (b\<lparr>text' := x, flags := flags b OR GotText\<rparr>)"
  using assms by (auto simp: alert_agree_def flag_others flag_self Got_nonzero)

lemma agree_title:
  assumes "alert_agree a b"
  shows "alert_agree (a\<lparr>title := x, flags := flags a OR GotTitle\<rparr>)
     (b\<lparr>title := x, flags := flags b OR GotTitle\<rparr>)"
  using assms by (auto simp: alert_agree_def flag_others flag_self Got_nonzero)

lemmas agree_stage = agree_controls agree_seq agree_mode agree_timeout agree_text agree_title

lemma related_I:
  assumes "s' = s\<lparr>currentAlert := b\<rparr>" and "alert_agree (currentAlert s) b"
  shows "related s s'"
  using assms by (simp add: related_def)

lemma related_D:
  assumes "related s s'"
  shows "s' = s\<lparr>currentAlert := currentAlert s'\<rparr>" and "alert_agree (currentAlert s) (currentAlert s')"
  using assms by (simp_all add: related_def)

lemma related_E:
  assumes "related s s'"
  obtains b where "s' = s\<lparr>currentAlert := b\<rparr>" and "alert_agree (currentAlert s) b"
  using assms by (auto simp: related_def)

lemma related_stage:
  assumes "related s s'" and "alert_agree (f (currentAlert s)) (g (currentAlert s'))"
  shows "related (stage f s) (stage g s')"
proof -
  from assms(1) obtain b where b: "s' = s\<lparr>currentAlert := b\<rparr>" by (rule related_E)
  then have "stage g s' = (stage f s)\<lparr>currentAlert := g (currentAlert s')\<rparr>"
    by (simp add: stage_def)
  then show ?thesis using assms(2) by (intro related_I [where b = "g (currentAlert s')"]) simp_all
qed

lemma related_ProcessReceivedValue:
  assumes rel: "related s s'"
  shows "related (ProcessReceivedValue L r d s) (ProcessReceivedValue L r d s')"
proof -
  from rel obtain b where b: "s' = s\<lparr>currentAlert := b\<rparr>"
    and a: "alert_agree (currentAlert s) b" by (rule related_E)
  have a': "alert_agree (currentAlert s) (currentAlert s')" using a b by simp
  show ?thesis
  proof (cases r rule: PRV_cases)
    case Key
    show ?thesis unfolding Key PRV_Key using a by (simp add: related_def b)
  next
    case LiveSeqs
    show ?thesis unfolding PRV_LiveSeqs [OF LiveSeqs]
      using a by (simp add: related_def b)
  next
    case Status
    show ?thesis unfolding Status PRV_Status
      using a by (simp add: related_def b call_def)
  next
    case Uptime
    show ?thesis unfolding Uptime PRV_Uptime
      using a by (simp add: related_def b call_def resetSeqs_def Reconnect_def)
  next
    case MessageBox
    show ?thesis unfolding MessageBox PRV_MessageBox
      using a by (simp add: related_def b call_def)
  next
    case Controls
    show ?thesis unfolding Controls PRV_Controls
      by (rule related_stage [OF rel]) (rule agree_controls [OF a'])
  next
    case Message
    show ?thesis unfolding Message PRV_Message
      by (rule related_stage [OF rel]) (rule agree_text [OF a'])
  next
    case Mode
    show ?thesis unfolding Mode PRV_Mode
      by (rule related_stage [OF rel]) (rule agree_mode [OF a'])
  next
    case Seq
    show ?thesis unfolding Seq PRV_Seq
      by (rule related_stage [OF rel]) (rule agree_seq [OF a'])
  next
    case Timeout
    show ?thesis unfolding Timeout PRV_Timeout
      by (rule related_stage [OF rel]) (rule agree_timeout [OF a'])
  next
    case Title
    show ?thesis unfolding Title PRV_Title
      by (rule related_stage [OF rel]) (rule agree_title [OF a'])
  next
    case PushMessage
    show ?thesis unfolding PushMessage PRV_PushMessage
      using a by (simp add: related_def b call_def)
  next
    case PushSeq
    show ?thesis unfolding PushSeq PRV_PushSeq
      using a by (simp add: related_def b)
  next
    case Other
    from rel show ?thesis by (simp add: PRV_Other [OF Other])
  qed
qed

lemma related_foldl:
  "related s s' \<Longrightarrow>
     related (foldl (\<lambda>s t. ProcessReceivedValue L (fst t) (snd t) s) s msg)
       (foldl (\<lambda>s t. ProcessReceivedValue L (fst t) (snd t) s) s' msg)"
  by (induction msg arbitrary: s s') (simp_all add: related_ProcessReceivedValue)

lemma related_Start: "related (StartReceivedMessage s) (StartReceivedMessage (s\<lparr>currentAlert := b\<rparr>))"
  by (rule related_I [where b = "b\<lparr>flags := 0\<rparr>"])
    (simp_all add: StartReceivedMessage_def alert_agree_def)

lemma related_staged: "related (staged L msg s) (staged L msg (s\<lparr>currentAlert := b\<rparr>))"
  unfolding staged_def by (rule related_foldl [OF related_Start])

lemma agree_GotAll:
  assumes "alert_agree a b" and "flags a = GotAll"
  shows "b = a"
proof -
  have bits: "GotAll AND GotMode \<noteq> 0" "GotAll AND GotSeq \<noteq> 0" "GotAll AND GotTimeout \<noteq> 0"
    "GotAll AND GotTitle \<noteq> 0" "GotAll AND GotText \<noteq> 0" "GotAll AND GotControls \<noteq> 0"
    by (simp_all add: GotAll_def Got_defs)
  with assms show ?thesis by (cases a, cases b) (simp add: alert_agree_def)
qed

lemma agree_clear:
  assumes "alert_agree a b"
  shows "(flags b AND GotMode \<noteq> 0 \<and> sint (mode b) < 0)
       = (flags a AND GotMode \<noteq> 0 \<and> sint (mode a) < 0)"
  using assms by (auto simp: alert_agree_def)

lemma related_End_alert:
  assumes "related s s'"
  shows "EndReceivedMessage_alert s' = (EndReceivedMessage_alert s)\<lparr>currentAlert := currentAlert s'\<rparr>"
proof -
  from assms obtain b where b: "s' = s\<lparr>currentAlert := b\<rparr>"
    and a: "alert_agree (currentAlert s) b" by (rule related_E)
  note c = agree_clear [OF a]
  have fl: "flags b = flags (currentAlert s)" using a by (simp add: alert_agree_def)
  show ?thesis
  proof (cases "flags (currentAlert s) = GotAll")
    case True
    from agree_GotAll [OF a True] have "b = currentAlert s" .
    with b have "s' = s" by simp
    then show ?thesis by (simp add: EndReceivedMessage_alert_def call_def)
  next
    case False
    with fl have "flags b \<noteq> GotAll" by simp
    with False c show ?thesis by (simp add: b EndReceivedMessage_alert_def call_def)
  qed
qed

lemma related_End_pre:
  assumes "related s s'"
  shows "related (EndReceivedMessage_log (EndReceivedMessage_response now s))
     (EndReceivedMessage_log (EndReceivedMessage_response now s'))"
proof -
  from assms obtain b where b: "s' = s\<lparr>currentAlert := b\<rparr>"
    and a: "alert_agree (currentAlert s) b" by (rule related_E)
  show ?thesis using a
    by (simp add: related_def b EndReceivedMessage_log_def EndReceivedMessage_response_def call_def)
qed

lemma related_End:
  assumes "related s s'"
  shows "EndReceivedMessage now s' = (EndReceivedMessage now s)\<lparr>currentAlert := currentAlert s'\<rparr>"
  using related_End_alert [OF related_End_pre [OF assms, of now]]
  by (simp add: EndReceivedMessage_def)

lemma ReceiveMessage_independent:
  "(ReceiveMessage L now msg (s\<lparr>currentAlert := b\<rparr>))\<lparr>currentAlert := c\<rparr>
     = (ReceiveMessage L now msg s)\<lparr>currentAlert := c\<rparr>"
  unfolding ReceiveMessage_def
  by (simp add: related_End [OF related_staged [of L msg s b]])


subsection \<open>Restart of the remote\<close>

lemma restarts_call:
  "restarts_detected (call c s) = (if c = UI_ResetBedAndChamber then restarts_detected s + 1 else restarts_detected s)"
  by (simp add: restarts_detected_def)

lemma restarts_resetSeqs: "restarts_detected (resetSeqs s) = restarts_detected s"
  by (simp add: restarts_detected_def)

lemma restarts_remoteUpTime: "restarts_detected (s\<lparr>remoteUpTime := x\<rparr>) = restarts_detected s"
  by (simp add: restarts_detected_def)

lemma resetSeqsFields_clean: "\<not> spec_dirty (resetSeqsFields q) u"
  by (cases u) (simp_all add: resetSeqsFields_def)

lemma resetSeqsFields_counter: "spec_counter (resetSeqsFields q) u = 65535"
  by (cases u) (simp_all add: resetSeqsFields_def)

lemma UpdateSeqs_after_reset:
  assumes "fetched u" and "sint ival \<noteq> 65535"
  shows "spec_dirty (UpdateSeqs (seqs_code u) ival (resetSeqsFields q)) u"
  using assms by (cases u) (simp_all add: UpdateSeqs_def resetSeqsFields_def FETCH_defs)

lemma GetNextToPoll_reset: "GetNextToPoll (resetSeqsFields q) = None"
  by (simp add: GetNextToPoll_def resetSeqsFields_def)


text \<open>
  Claim C1, as amended.  An up time that reads as \<open>uival\<close> runs the restart recovery
  exactly when it is smaller than the up time received before; then it runs once, every
  sequence counter becomes 65535 and every update flag is cleared, so that nothing is to
  be polled; the flag of a subsystem whose detailed request is compiled in is set when
  its sequence number is received next with a value other than 65535.  (For the up
  times 10, 20, 5 after startup the recovery runs once, at the 5: see the witness.)
\<close>

theorem C1_restart_recovery:
  assumes "\<not> empty_string data" and "StrToU32 L data = (uival, True)"
  shows "(uival < remoteUpTime s \<longrightarrow>
            seqs (ProcessReceivedValue L rcvLiveStateUptime data s) = resetSeqsFields (seqs s)
            \<and> restarts_detected (ProcessReceivedValue L rcvLiveStateUptime data s)
                = restarts_detected s + 1)
       \<and> (\<not> uival < remoteUpTime s \<longrightarrow>
            seqs (ProcessReceivedValue L rcvLiveStateUptime data s) = seqs s
            \<and> restarts_detected (ProcessReceivedValue L rcvLiveStateUptime data s)
                = restarts_detected s)
       \<and> remoteUpTime (ProcessReceivedValue L rcvLiveStateUptime data s) = uival
       \<and> spec_counter (resetSeqsFields q) u = 65535
       \<and> \<not> spec_dirty (resetSeqsFields q) u
       \<and> GetNextToPoll (resetSeqsFields q) = None
       \<and> (fetched u \<and> sint ival \<noteq> 65535 \<longrightarrow>
            spec_dirty (UpdateSeqs (seqs_code u) ival (resetSeqsFields q)) u)"
proof -
  from assms have g: "GetUnsignedInteger L data 0 = (True, uival)"
    by (simp add: GetUnsignedInteger_def)
  show ?thesis
    by (simp add: PRV_Uptime g restarts_call restarts_resetSeqs restarts_remoteUpTime
        resetSeqsFields_clean resetSeqsFields_counter UpdateSeqs_after_reset GetNextToPoll_reset)
qed

theorem C1_witness:
  "\<not> empty_string ''5'' \<and> StrToU32 decimalLibrary ''5'' = (5, True)
   \<and> (5 :: 32 word) < remoteUpTime ((startup default_alert)\<lparr>remoteUpTime := 20\<rparr>)
   \<and> seqs (ProcessReceivedValue decimalLibrary rcvLiveStateUptime ''5''
              ((startup default_alert)\<lparr>remoteUpTime := 20\<rparr>))
       = resetSeqsFields (seqs ((startup default_alert)\<lparr>remoteUpTime := 20\<rparr>))
   \<and> restarts_detected (ProcessReceivedValue decimalLibrary rcvLiveStateUptime ''5''
              ((startup default_alert)\<lparr>remoteUpTime := 20\<rparr>)) = 1
   \<and> fetched Move \<and> sint (3 :: 32 word) \<noteq> 65535
   \<and> spec_dirty (UpdateSeqs (seqs_code Move) 3 (resetSeqsFields (seqs (startup default_alert)))) Move
   \<and> restarts_detected (ReceiveMessages decimalLibrary 0
         [uptime_message ''10'', uptime_message ''20''] (startup default_alert)) = 0
   \<and> restarts_detected (ReceiveMessages decimalLibrary 0
         [uptime_message ''10'', uptime_message ''20'', uptime_message ''5''] (startup default_alert)) = 1"
proof -
  let ?s = "(startup default_alert)\<lparr>remoteUpTime := 20\<rparr>"
  have h1: "\<not> empty_string ''5''" by (simp add: empty_string_def)
  have h2: "StrToU32 decimalLibrary ''5'' = (5, True)" by code_simp
  have h3: "(5 :: 32 word) < remoteUpTime ?s" by simp
  have h4: "fetched Move \<and> sint (3 :: 32 word) \<noteq> 65535" by (simp add: FETCH_defs)
  have r0: "restarts_detected ?s = 0" by code_simp
  have r2: "restarts_detected (ReceiveMessages decimalLibrary 0
         [uptime_message ''10'', uptime_message ''20''] (startup default_alert)) = 0"
    by code_simp
  have r3: "restarts_detected (ReceiveMessages decimalLibrary 0
         [uptime_message ''10'', uptime_message ''20'', uptime_message ''5''] (startup default_alert)) = 1"
    by code_simp
  from C1_restart_recovery [OF h1 h2, where s = ?s and q = "seqs (startup default_alert)"
      and u = Move and ival = 3] h1 h2 h3 h4 r0 r2 r3
  show ?thesis by simp
qed

text \<open>
  The claim as stated fails: after the up times 10, 20, 5 the recovery has run once,
  and no update flag is set; \<open>resetSeqs\<close> assigns \<open>false\<close> to every one of them.
\<close>

theorem C1_counterexample:
  "restarts_detected (ReceiveMessages decimalLibrary 0
      [uptime_message ''10'', uptime_message ''20'', uptime_message ''5''] (startup default_alert)) = 1
   \<and> \<not> all_dirty (seqs (ReceiveMessages decimalLibrary 0
      [uptime_message ''10'', uptime_message ''20'', uptime_message ''5''] (startup default_alert)))
   \<and> GetNextToPoll (seqs (ReceiveMessages decimalLibrary 0
      [uptime_message ''10'', uptime_message ''20'', uptime_message ''5''] (startup default_alert))) = None"
  by code_simp


text \<open>
  Claim C2.  A message that lacks one of the six composite fields of an alert (for
  instance one that stages text, title, mode, sequence number and timeout, but no axis
  controls) hands no alert to the display at its end.  And what a message leaves in
  the staged alert has no effect on a later message: whatever the staged alert holds
  when a message starts, the message ends in the same state but for the staged alert
  itself, with the same calls made, the same alert handed over among them.
\<close>

theorem C2_composite_atomicity:
  "((c, b) \<in> set composite_fields \<and> (\<forall>t\<in>set msg. fst t \<noteq> c) \<longrightarrow>
      alerts_delivered (ReceiveMessage L now msg s) = alerts_delivered s)
   \<and> (ReceiveMessage L now' msg' (s'\<lparr>currentAlert := a\<rparr>))\<lparr>currentAlert := x\<rparr>
       = (ReceiveMessage L now' msg' s')\<lparr>currentAlert := x\<rparr>"
  using missing_field_no_alert [where c = c and b = b and msg = msg and L = L and now = now and s = s]
    ReceiveMessage_independent [where L = L and now = now' and msg = msg' and s = s' and b = a and c = x]
  by blast

theorem C2_witness:
  "(rcvStateMessageBoxAxisControls, GotControls) \<in> set composite_fields
   \<and> list_all (\<lambda>t. fst t \<noteq> rcvStateMessageBoxAxisControls) (partial_alert_message ''2'' ''7'')
   \<and> alerts_delivered (ReceiveMessage decimalLibrary 0 (partial_alert_message ''2'' ''7'')
         (startup default_alert)) = alerts_delivered (startup default_alert)
   \<and> calls (ReceiveMessages decimalLibrary 0
         [partial_alert_message ''2'' ''7'', alert_message ''3'' ''8''] (startup default_alert))
       = [SetStatus None,
          UI_ProcessAlert \<lparr>mode = 3, seq = 8, controls = 0, timeout = 0, flags = 63,
                           title = ''note'', text' = ''hello''\<rparr>]"
proof -
  have h1: "(rcvStateMessageBoxAxisControls, GotControls) \<in> set composite_fields"
    by (simp add: composite_fields_def)
  have h2: "\<forall>t\<in>set (partial_alert_message ''2'' ''7''). fst t \<noteq> rcvStateMessageBoxAxisControls"
    by (simp add: partial_alert_message_def alert_message_def)
  have c: "calls (ReceiveMessages decimalLibrary 0
         [partial_alert_message ''2'' ''7'', alert_message ''3'' ''8''] (startup default_alert))
       = [SetStatus None,
          UI_ProcessAlert \<lparr>mode = 3, seq = 8, controls = 0, timeout = 0, flags = 63,
                           title = ''note'', text' = ''hello''\<rparr>]"
    by code_simp
  from C2_composite_atomicity [where c = rcvStateMessageBoxAxisControls and b = GotControls
      and msg = "partial_alert_message ''2'' ''7''" and L = decimalLibrary and now = 0
      and s = "startup default_alert"] h1 h2 c
  show ?thesis by (simp add: list_all_iff)
qed

text \<open>
  Claim C7, as amended.  Of two complete alert messages in a row with the same
  sequence number at most one is handed to the display.  When the first one has a mode
  that is not negative, the end of the second one never hands over an alert; when in
  addition the sequence number differs from the last one handed over, the first one is
  handed over, and the sequence number is remembered.
\<close>

theorem C7_alert_at_most_once:
  assumes "complete_alert L m1 s q" and "complete_alert L m2 (ReceiveMessage L t1 m1 s) q"
  shows "alerts_delivered (ReceiveMessage L t2 m2 (ReceiveMessage L t1 m1 s)) \<le> alerts_delivered s + 1
    \<and> (0 \<le> sint (mode (currentAlert (staged L m1 s))) \<longrightarrow>
         alerts_delivered (ReceiveMessage L t2 m2 (ReceiveMessage L t1 m1 s))
           = alerts_delivered (ReceiveMessage L t1 m1 s))
    \<and> (0 \<le> sint (mode (currentAlert (staged L m1 s))) \<and> q \<noteq> lastAlertSeq s \<longrightarrow>
         alerts_delivered (ReceiveMessage L t1 m1 s) = alerts_delivered s + 1
         \<and> lastAlertSeq (ReceiveMessage L t1 m1 s) = q)"
proof -
  let ?s1 = "ReceiveMessage L t1 m1 s"
  from assms(1) have d1: "delivers (staged L m1 s) \<longleftrightarrow>
      0 \<le> sint (mode (currentAlert (staged L m1 s))) \<and> q \<noteq> lastAlertSeq s"
    using GotAll_GotMode by (auto simp: delivers_def complete_alert_def staged_lastAlertSeq)
  from assms(2) have d2: "delivers (staged L m2 ?s1) \<longleftrightarrow>
      0 \<le> sint (mode (currentAlert (staged L m2 ?s1))) \<and> q \<noteq> lastAlertSeq ?s1"
    using GotAll_GotMode by (auto simp: delivers_def complete_alert_def staged_lastAlertSeq)
  have a1: "alerts_delivered ?s1
      = (if delivers (staged L m1 s) then alerts_delivered s + 1 else alerts_delivered s)"
    by (simp add: ReceiveMessage_def EndReceivedMessage_alerts staged_alerts)
  have l1: "lastAlertSeq ?s1 = (if delivers (staged L m1 s) then q else lastAlertSeq s)"
    using assms(1)
    by (simp add: ReceiveMessage_def EndReceivedMessage_lastAlertSeq staged_lastAlertSeq
        complete_alert_def)
  have a2: "alerts_delivered (ReceiveMessage L t2 m2 ?s1)
      = (if delivers (staged L m2 ?s1) then alerts_delivered ?s1 + 1 else alerts_delivered ?s1)"
    by (simp add: ReceiveMessage_def [of L t2] EndReceivedMessage_alerts staged_alerts)
  show ?thesis
    unfolding a2 d2 l1 a1 d1 by auto
qed

theorem C7_witness:
  "complete_alert decimalLibrary (alert_message ''2'' ''7'') (startup default_alert) 7
   \<and> complete_alert decimalLibrary (alert_message ''2'' ''7'')
        (ReceiveMessage decimalLibrary 0 (alert_message ''2'' ''7'') (startup default_alert)) 7
   \<and> 0 \<le> sint (mode (currentAlert (staged decimalLibrary (alert_message ''2'' ''7'') (startup default_alert))))
   \<and> 7 \<noteq> lastAlertSeq (startup default_alert)
   \<and> alerts_delivered (ReceiveMessage decimalLibrary 0 (alert_message ''2'' ''7'') (startup default_alert))
       = alerts_delivered (startup default_alert) + 1
   \<and> alerts_delivered (ReceiveMessage decimalLibrary 0 (alert_message ''2'' ''7'')
        (ReceiveMessage decimalLibrary 0 (alert_message ''2'' ''7'') (startup default_alert)))
       = alerts_delivered (ReceiveMessage decimalLibrary 0 (alert_message ''2'' ''7'') (startup default_alert))"
proof -
  let ?m = "alert_message ''2'' ''7''"
  let ?s = "startup default_alert"
  have h1: "complete_alert decimalLibrary ?m ?s 7" by code_simp
  have h2: "complete_alert decimalLibrary ?m (ReceiveMessage decimalLibrary 0 ?m ?s) 7" by code_simp
  have h3: "0 \<le> sint (mode (currentAlert (staged decimalLibrary ?m ?s)))" by code_simp
  have h4: "7 \<noteq> lastAlertSeq ?s" by code_simp
  from C7_alert_at_most_once [OF h1 h2, where ?t2.0 = 0] h1 h2 h3 h4 show ?thesis by simp
qed

text \<open>
  The claim as stated fails when the sequence number equals the remembered one from
  the start: after startup \<open>lastAlertSeq\<close> is 0, and two complete alert messages with
  sequence number 0 are never handed over.
\<close>

theorem C7_counterexample:
  "complete_alert decimalLibrary (alert_message ''2'' ''0'') (startup default_alert) 0
   \<and> complete_alert decimalLibrary (alert_message ''2'' ''0'')
        (ReceiveMessage decimalLibrary 0 (alert_message ''2'' ''0'') (startup default_alert)) 0
   \<and> alerts_delivered (startup default_alert) = 0
   \<and> alerts_delivered (ReceiveMessages decimalLibrary 0
        [alert_message ''2'' ''0'', alert_message ''2'' ''0''] (startup default_alert)) = 0"
  by code_simp


end
